theory Spec2Isabelle
  imports Complex_Main
begin

section \<open>JavaScript values\<close>

text \<open>
  The enrichment script \<^verbatim>\<open>src/backend/routes/test.js\<close> works on whatever
  \<^verbatim>\<open>JSON.parse\<close> returns, so the model keeps dynamically typed values.  A string is a
  list of code units below 256; a number is a rational (the script only tests numbers for
  truthiness and hands them on); an object is the list of its own properties, each name
  once.  \<^verbatim>\<open>undefined\<close> is the result of reading a property that is not there.
\<close>

datatype jsval =
    JUndefined
  | JNull
  | JBool bool
  | JNum rat
  | JStr string
  | JArr "jsval list"
  | JObj "(string \<times> jsval) list"

datatype js_error = TypeError | PrismaError

text \<open>Truthiness, as \<^verbatim>\<open>!v\<close> and \<^verbatim>\<open>v || w\<close> test it.\<close>

fun truthy :: "jsval \<Rightarrow> bool" where
  "truthy JUndefined = False"
| "truthy JNull = False"
| "truthy (JBool b) = b"
| "truthy (JNum n) = (n \<noteq> 0)"
| "truthy (JStr s) = (s \<noteq> [])"
| "truthy (JArr xs) = True"
| "truthy (JObj kvs) = True"

text \<open>\<^verbatim>\<open>v == null\<close> holds of \<^verbatim>\<open>null\<close> and \<^verbatim>\<open>undefined\<close> only.\<close>

fun nullish :: "jsval \<Rightarrow> bool" where
  "nullish JUndefined = True"
| "nullish JNull = True"
| "nullish v = False"

fun isArray :: "jsval \<Rightarrow> bool" where
  "isArray (JArr xs) = True"
| "isArray v = False"

text \<open>
  \<^verbatim>\<open>v.k\<close> for a receiver that is neither \<^verbatim>\<open>null\<close> nor \<^verbatim>\<open>undefined\<close>, and for the
  property names the script reads (modules, lessons, content, type, text, language,
  question, options, answer, explanation): none of them is a property of a primitive, of an
  array or of a prototype, so only an object with that own property has a value there.
  On \<^verbatim>\<open>null\<close> and \<^verbatim>\<open>undefined\<close> the read throws; \<open>get_prop\<close> is the read with that case.
\<close>

fun property :: "jsval \<Rightarrow> string \<Rightarrow> jsval" where
  "property (JObj kvs) k = (case map_of kvs k of None \<Rightarrow> JUndefined | Some v \<Rightarrow> v)"
| "property v k = JUndefined"

definition get_prop :: "jsval \<Rightarrow> string \<Rightarrow> js_error + jsval" where
  "get_prop v k = (if nullish v then Inl TypeError else Inr (property v k))"

text \<open>\<^verbatim>\<open>a || b\<close>.\<close>

definition or_else :: "jsval \<Rightarrow> jsval \<Rightarrow> jsval" where
  "or_else a b = (if truthy a then a else b)"

text \<open>The canonical decimal name of an array index, as an object's property key.\<close>

definition digit :: "nat \<Rightarrow> char" where
  "digit d = ''0123456789'' ! d"

fun index_key :: "nat \<Rightarrow> string" where
  "index_key n = (if n < 10 then [digit n] else index_key (n div 10) @ [digit (n mod 10)])"

declare index_key.simps [simp del]

text \<open>
  \<^verbatim>\<open>v?.[i]\<close>: \<^verbatim>\<open>undefined\<close> when \<open>v\<close> is \<^verbatim>\<open>null\<close> or \<^verbatim>\<open>undefined\<close>, the element of an
  array, the one-character string of a string, the property named by the index of an
  object, and \<^verbatim>\<open>undefined\<close> out of range and on numbers and booleans.
\<close>

fun opt_index :: "jsval \<Rightarrow> nat \<Rightarrow> jsval" where
  "opt_index (JArr xs) i = (if i < length xs then xs ! i else JUndefined)"
| "opt_index (JStr s) i = (if i < length s then JStr [s ! i] else JUndefined)"
| "opt_index (JObj kvs) i = property (JObj kvs) (index_key i)"
| "opt_index v i = JUndefined"

subsection \<open>Strings\<close>

text \<open>
  What \<^verbatim>\<open>String.prototype.trim\<close> removes, among the code units below 256: tab, line
  feed, vertical tab, form feed, carriage return, space and the no-break space.
\<close>

definition js_whitespace :: "char \<Rightarrow> bool" where
  "js_whitespace c = (c \<in> set [CHR 0x09, CHR 0x0A, CHR 0x0B, CHR 0x0C, CHR 0x0D, CHR 0x20, CHR 0xA0])"

definition trim :: "string \<Rightarrow> string" where
  "trim s = rev (dropWhile js_whitespace (rev (dropWhile js_whitespace s)))"

text \<open>\<^verbatim>\<open>s.replace(/^p/, '')\<close> and \<^verbatim>\<open>s.replace(/p$/, '')\<close> for a literal \<open>p\<close>.\<close>

definition strip_prefix :: "string \<Rightarrow> string \<Rightarrow> string" where
  "strip_prefix p s = (if take (length p) s = p then drop (length p) s else s)"

definition strip_suffix :: "string \<Rightarrow> string \<Rightarrow> string" where
  "strip_suffix p s = rev (strip_prefix (rev p) (rev s))"

text \<open>
  Line 103:
  \<^verbatim>\<open>output.trim().replace(/^```json/, '').replace(/```$/, '').trim()\<close>.
\<close>

definition strip_fences :: "string \<Rightarrow> string" where
  "strip_fences output = trim (strip_suffix ''```'' (strip_prefix ''```json'' (trim output)))"

text \<open>
  \<^verbatim>\<open>toUpperCase\<close> on the letters a to z.  The script applies it to a block type that has
  passed validation, one of three lower-case ASCII words; other code units are left as
  they are here.
\<close>

definition upper_char :: "char \<Rightarrow> char" where
  "upper_char c =
     (case map_of (zip ''abcdefghijklmnopqrstuvwxyz'' ''ABCDEFGHIJKLMNOPQRSTUVWXYZ'') c of
        None \<Rightarrow> c
      | Some u \<Rightarrow> u)"

definition toUpperCase :: "string \<Rightarrow> string" where
  "toUpperCase s = map upper_char s"

section \<open>The trace of a run\<close>

text \<open>
  What a run does besides changing the database: its console lines, its calls of the
  generator, its waits and its calls of \<^verbatim>\<open>prisma.lesson.update\<close>, in order.
\<close>

record mcq_create =
  mc_question :: jsval
  mc_options :: jsval
  mc_answer :: jsval
  mc_explanation :: jsval

text \<open>
  One element of \<^verbatim>\<open>contentBlocks.create\<close> (lines 185 to 201); \<open>bc_mcq\<close> is \<open>None\<close> where
  the script passes \<^verbatim>\<open>undefined\<close>.
\<close>

record block_create =
  bc_order :: nat
  bc_type :: string
  bc_text :: jsval
  bc_language :: jsval
  bc_videoUrl :: jsval
  bc_mcq :: "mcq_create option"

text \<open>
  The \<^verbatim>\<open>data\<close> of the update (lines 180 to 209).  \<open>ud_blocks_deleteMany\<close> and
  \<open>ud_videos_deleteMany\<close> say that the nested write carries \<^verbatim>\<open>deleteMany: {}\<close>, whose
  empty filter selects every child row of the lesson; a video's \<^verbatim>\<open>create\<close> entry is its
  \<^verbatim>\<open>query\<close>.
\<close>

record update_data =
  ud_isEnriched :: bool
  ud_objectives :: "string list"
  ud_blocks_deleteMany :: bool
  ud_blocks_create :: "block_create list"
  ud_videos_deleteMany :: bool
  ud_videos_create :: "jsval list"

datatype event =
    ErrCourseNotFound
  | LogAttempt nat
  | GenerateContent
  | LogResponseReceived
  | ErrGenerationFailed nat string
  | ErrMaxAttempts
  | Sleep nat
  | WarnFlatArray
  | ErrNoModules jsval
  | LogParsed jsval
  | ErrJsonParse
  | LogRawOutput "string option"
  | LogEnriched
  | WarnInvalidType string jsval
  | WarnInvalidMcq string jsval
  | WarnNoValidBlocks string
  | LessonUpdate string update_data
  | LogUpdated string
  | LogAllEnriched
  | ErrDatabase
  | Disconnect

section \<open>Validation of content blocks\<close>

definition block_types :: "jsval list" where
  "block_types = [JStr ''paragraph'', JStr ''video'', JStr ''mcq'']"

text \<open>
  The callback of lines 161 to 171, for the lesson titled \<open>title\<close>.  Reading
  \<^verbatim>\<open>block.type\<close> throws on \<^verbatim>\<open>null\<close>; \<^verbatim>\<open>includes\<close> compares with strict equality.
\<close>

definition validate_block :: "string \<Rightarrow> jsval \<Rightarrow> event list \<times> (js_error + bool)" where
  "validate_block title block =
     (if nullish block then ([], Inl TypeError)
      else if \<not> truthy (property block ''type'') \<or> property block ''type'' \<notin> set block_types
        then ([WarnInvalidType title block], Inr False)
      else if property block ''type'' = JStr ''mcq'' \<and>
              (\<not> truthy (property block ''question'') \<or> \<not> isArray (property block ''options'') \<or>
               nullish (property block ''answer'') \<or> \<not> truthy (property block ''explanation''))
        then ([WarnInvalidMcq title block], Inr False)
      else ([], Inr True))"

text \<open>
  \<^verbatim>\<open>contentBlocks.filter(callback)\<close>: the blocks are visited in order and an exception
  of the callback ends the filter; the warnings printed before it stay printed.
\<close>

fun filter_valid :: "string \<Rightarrow> jsval list \<Rightarrow> event list \<times> (js_error + jsval list)" where
  "filter_valid title [] = ([], Inr [])"
| "filter_valid title (b # bs) =
     (case validate_block title b of
        (ev, Inl e) \<Rightarrow> (ev, Inl e)
      | (ev, Inr keep) \<Rightarrow>
          (case filter_valid title bs of
             (ev', Inl e) \<Rightarrow> (ev @ ev', Inl e)
           | (ev', Inr vs) \<Rightarrow> (ev @ ev', Inr (if keep then b # vs else vs))))"

section \<open>The data of a lesson update\<close>

text \<open>
  The callback of \<^verbatim>\<open>validBlocks.map\<close> (lines 185 to 201).  \<^verbatim>\<open>block.type.toUpperCase()\<close>
  is a method of strings only: on any other type value the call throws.
\<close>

definition block_data :: "nat \<Rightarrow> jsval \<Rightarrow> js_error + block_create" where
  "block_data index block =
     (if nullish block then Inl TypeError
      else case property block ''type'' of
        JStr ty \<Rightarrow>
          Inr \<lparr> bc_order = index,
                bc_type = toUpperCase ty,
                bc_text = or_else (property block ''text'') JNull,
                bc_language = or_else (property block ''language'') JNull,
                bc_videoUrl = (if ty = ''video'' then property block ''text'' else JNull),
                bc_mcq = (if ty = ''mcq''
                          then Some \<lparr> mc_question = property block ''question'',
                                      mc_options = property block ''options'',
                                      mc_answer = property block ''answer'',
                                      mc_explanation = property block ''explanation'' \<rparr>
                          else None) \<rparr>
      | _ \<Rightarrow> Inl TypeError)"

text \<open>\<^verbatim>\<open>validBlocks.map((block, index) => ...)\<close>, counting the index from \<open>index\<close>.\<close>

fun blocks_data :: "nat \<Rightarrow> jsval list \<Rightarrow> js_error + block_create list" where
  "blocks_data index [] = Inr []"
| "blocks_data index (b # bs) =
     (case block_data index b of
        Inl e \<Rightarrow> Inl e
      | Inr c \<Rightarrow> (case blocks_data (Suc index) bs of Inl e \<Rightarrow> Inl e | Inr cs \<Rightarrow> Inr (c # cs)))"

text \<open>
  \<^verbatim>\<open>validBlocks.filter((b) => b.type === 'video').map((v) => ({ query: v.text }))\<close>
  (lines 205 to 207).
\<close>

fun videos_data :: "jsval list \<Rightarrow> js_error + jsval list" where
  "videos_data [] = Inr []"
| "videos_data (b # bs) =
     (if nullish b then Inl TypeError
      else case videos_data bs of
        Inl e \<Rightarrow> Inl e
      | Inr qs \<Rightarrow> Inr (if property b ''type'' = JStr ''video'' then property b ''text'' # qs else qs))"

definition lesson_data :: "jsval list \<Rightarrow> js_error + update_data" where
  "lesson_data validBlocks =
     (case blocks_data 0 validBlocks of
        Inl e \<Rightarrow> Inl e
      | Inr creates \<Rightarrow>
          (case videos_data validBlocks of
             Inl e \<Rightarrow> Inl e
           | Inr queries \<Rightarrow>
               Inr \<lparr> ud_isEnriched = True,
                     ud_objectives = [],
                     ud_blocks_deleteMany = True,
                     ud_blocks_create = creates,
                     ud_videos_deleteMany = True,
                     ud_videos_create = queries \<rparr>))"

section \<open>The store\<close>

text \<open>
  The tables of the schema that the script writes (the \<^verbatim>\<open>CREATE TABLE\<close> statements
  kept with the script): \<^verbatim>\<open>Lesson\<close>, keyed by its id, with its title and the two columns
  the update sets; \<^verbatim>\<open>ContentBlock\<close>, \<^verbatim>\<open>MCQOption\<close> and \<^verbatim>\<open>VideoSearch\<close>.  A \<^verbatim>\<open>ContentBlock\<close>
  row holds the key of its \<^verbatim>\<open>MCQOption\<close> in \<^verbatim>\<open>mcqId\<close>; the schema gives
  \<^verbatim>\<open>MCQOption\<close> no column that points back.  The ids of new rows come from a counter
  that stands for the client's id generator.  A column holds the value the script handed
  over.
\<close>

record lesson_row =
  lr_title :: string
  lr_objectives :: "string list"
  lr_isEnriched :: bool

record content_block_row =
  cb_id :: nat
  cb_order :: nat
  cb_type :: string
  cb_text :: jsval
  cb_language :: jsval
  cb_videoUrl :: jsval
  cb_lessonId :: string
  cb_mcqId :: "nat option"

record mcq_option_row =
  mo_id :: nat
  mo_question :: jsval
  mo_options :: jsval
  mo_answer :: jsval
  mo_explanation :: jsval

record video_search_row =
  vs_id :: nat
  vs_query :: jsval
  vs_lessonId :: string

record database =
  lessonTable :: "string \<rightharpoonup> lesson_row"
  contentBlockTable :: "content_block_row list"
  mcqOptionTable :: "mcq_option_row list"
  videoSearchTable :: "video_search_row list"
  nextId :: nat

text \<open>
  The nested \<^verbatim>\<open>create\<close> of content blocks for lesson \<open>lid\<close>, ids taken from \<open>n\<close> on:
  a block with \<^verbatim>\<open>mcq: { create: ... }\<close> inserts the \<^verbatim>\<open>MCQOption\<close> row first and stores
  its id in the block's \<^verbatim>\<open>mcqId\<close>.  The result is the new block rows, the new option
  rows and the next unused id.
\<close>

fun insert_blocks ::
  "string \<Rightarrow> nat \<Rightarrow> block_create list \<Rightarrow> content_block_row list \<times> mcq_option_row list \<times> nat" where
  "insert_blocks lid n [] = ([], [], n)"
| "insert_blocks lid n (c # cs) =
     (case bc_mcq c of
        None \<Rightarrow>
          (case insert_blocks lid (n + 1) cs of
             (bs, ms, n') \<Rightarrow>
               (\<lparr> cb_id = n, cb_order = bc_order c, cb_type = bc_type c, cb_text = bc_text c,
                   cb_language = bc_language c, cb_videoUrl = bc_videoUrl c,
                   cb_lessonId = lid, cb_mcqId = None \<rparr> # bs, ms, n'))
      | Some m \<Rightarrow>
          (case insert_blocks lid (n + 2) cs of
             (bs, ms, n') \<Rightarrow>
               (\<lparr> cb_id = n + 1, cb_order = bc_order c, cb_type = bc_type c, cb_text = bc_text c,
                   cb_language = bc_language c, cb_videoUrl = bc_videoUrl c,
                   cb_lessonId = lid, cb_mcqId = Some n \<rparr> # bs,
                \<lparr> mo_id = n, mo_question = mc_question m, mo_options = mc_options m,
                   mo_answer = mc_answer m, mo_explanation = mc_explanation m \<rparr> # ms, n')))"

fun insert_videos :: "string \<Rightarrow> nat \<Rightarrow> jsval list \<Rightarrow> video_search_row list \<times> nat" where
  "insert_videos lid n [] = ([], n)"
| "insert_videos lid n (q # qs) =
     (case insert_videos lid (n + 1) qs of
        (vs, n') \<Rightarrow> (\<lparr> vs_id = n, vs_query = q, vs_lessonId = lid \<rparr> # vs, n'))"

text \<open>
  \<^verbatim>\<open>prisma.lesson.update({ where: { id }, data })\<close> on a store that takes the write:
  \<open>None\<close> when no lesson has the id.  \<^verbatim>\<open>deleteMany: {}\<close> removes the lesson's rows of
  the child table before the created ones are added; no statement of the write touches
  the rows of \<^verbatim>\<open>MCQOption\<close> that the removed blocks pointed to.
\<close>

definition prisma_lesson_update :: "database \<Rightarrow> string \<Rightarrow> update_data \<Rightarrow> database option" where
  "prisma_lesson_update db lid data =
     (case lessonTable db lid of
        None \<Rightarrow> None
      | Some row \<Rightarrow>
          (case insert_blocks lid (nextId db) (ud_blocks_create data) of
             (bs, ms, n1) \<Rightarrow>
               (case insert_videos lid n1 (ud_videos_create data) of
                  (vs, n2) \<Rightarrow>
                    Some \<lparr> lessonTable = (lessonTable db)(lid \<mapsto>
                              row\<lparr> lr_objectives := ud_objectives data,
                                   lr_isEnriched := ud_isEnriched data \<rparr>),
                           contentBlockTable =
                             (if ud_blocks_deleteMany data
                              then filter (\<lambda>r. cb_lessonId r \<noteq> lid) (contentBlockTable db)
                              else contentBlockTable db) @ bs,
                           mcqOptionTable = mcqOptionTable db @ ms,
                           videoSearchTable =
                             (if ud_videos_deleteMany data
                              then filter (\<lambda>r. vs_lessonId r \<noteq> lid) (videoSearchTable db)
                              else videoSearchTable db) @ vs,
                           nextId = n2 \<rparr>)))"

text \<open>
  Whether the client throws instead of writing (its validation of the data against the
  schema, a lost connection) is not decided by code of this repository: \<open>rejects\<close> is a
  parameter of the run.  A rejected update leaves the store as it was.
\<close>

type_synonym store_check = "database \<Rightarrow> string \<Rightarrow> update_data \<Rightarrow> bool"

definition lesson_update :: "store_check \<Rightarrow> database \<Rightarrow> string \<Rightarrow> update_data \<Rightarrow> database option" where
  "lesson_update rejects db lid data =
     (if rejects db lid data then None else prisma_lesson_update db lid data)"

section \<open>The reconciliation loops\<close>

text \<open>The course as \<^verbatim>\<open>findUnique\<close> returned it: modules and lessons in order.\<close>

record lesson =
  lesson_id :: string
  lesson_title :: string

record course_module =
  module_title :: string
  module_lessons :: "lesson list"

record course =
  course_title :: string
  course_modules :: "course_module list"

text \<open>Line 153: \<^verbatim>\<open>enrichedContent.modules?.[modIndex] || { lessons: [] }\<close>.\<close>

definition enrichedModule :: "jsval \<Rightarrow> nat \<Rightarrow> jsval" where
  "enrichedModule enrichedContent modIndex =
     or_else (opt_index (property enrichedContent ''modules'') modIndex)
             (JObj [(''lessons'', JArr [])])"

text \<open>Line 157: \<^verbatim>\<open>enrichedModule.lessons?.[lessonIndex] || { content: [] }\<close>.\<close>

definition enrichedLesson :: "jsval \<Rightarrow> nat \<Rightarrow> jsval" where
  "enrichedLesson em lessonIndex =
     or_else (opt_index (property em ''lessons'') lessonIndex)
             (JObj [(''content'', JArr [])])"

text \<open>Line 158: \<^verbatim>\<open>enrichedLesson.content || []\<close>.\<close>

definition contentBlocks :: "jsval \<Rightarrow> jsval" where
  "contentBlocks el = or_else (property el ''content'') (JArr [])"

text \<open>
  The body of the inner loop (lines 156 to 212) from the content blocks on.  A value
  that is not an array has no \<^verbatim>\<open>filter\<close> method: the call throws.  The result is the
  trace, the store and the exception that left the body, if any.
\<close>

definition process_lesson ::
  "store_check \<Rightarrow> lesson \<Rightarrow> jsval \<Rightarrow> database \<Rightarrow> event list \<times> database \<times> js_error option" where
  "process_lesson rejects lesson cbs db =
     (case cbs of
        JArr blocks \<Rightarrow>
          (case filter_valid (lesson_title lesson) blocks of
             (ev, Inl e) \<Rightarrow> (ev, db, Some e)
           | (ev, Inr validBlocks) \<Rightarrow>
               if length validBlocks = 0
               then (ev @ [WarnNoValidBlocks (lesson_title lesson)], db, None)
               else
                 (case lesson_data validBlocks of
                    Inl e \<Rightarrow> (ev, db, Some e)
                  | Inr data \<Rightarrow>
                      (case lesson_update rejects db (lesson_id lesson) data of
                         None \<Rightarrow> (ev @ [LessonUpdate (lesson_id lesson) data], db, Some PrismaError)
                       | Some db' \<Rightarrow>
                           (ev @ [LessonUpdate (lesson_id lesson) data,
                                  LogUpdated (lesson_title lesson)], db', None))))
      | _ \<Rightarrow> ([], db, Some TypeError))"

text \<open>The inner loop (line 155), at \<open>lessonIndex\<close> with the lessons from there on.\<close>

fun lessons_loop ::
  "store_check \<Rightarrow> jsval \<Rightarrow> nat \<Rightarrow> lesson list \<Rightarrow> database \<Rightarrow> event list \<times> database \<times> js_error option" where
  "lessons_loop rejects em lessonIndex [] db = ([], db, None)"
| "lessons_loop rejects em lessonIndex (lesson # rest) db =
     (case process_lesson rejects lesson (contentBlocks (enrichedLesson em lessonIndex)) db of
        (ev, db', Some e) \<Rightarrow> (ev, db', Some e)
      | (ev, db', None) \<Rightarrow>
          (case lessons_loop rejects em (Suc lessonIndex) rest db' of
             (ev', r) \<Rightarrow> (ev @ ev', r)))"

text \<open>
  The outer loop (line 151), at \<open>modIndex\<close> with the modules from there on.  Reading
  \<^verbatim>\<open>enrichedContent.modules\<close> throws on \<^verbatim>\<open>null\<close>.
\<close>

fun modules_loop ::
  "store_check \<Rightarrow> jsval \<Rightarrow> nat \<Rightarrow> course_module list \<Rightarrow> database \<Rightarrow> event list \<times> database \<times> js_error option" where
  "modules_loop rejects ec modIndex [] db = ([], db, None)"
| "modules_loop rejects ec modIndex (m # rest) db =
     (if nullish ec then ([], db, Some TypeError)
      else
        (case lessons_loop rejects (enrichedModule ec modIndex) 0 (module_lessons m) db of
           (ev, db', Some e) \<Rightarrow> (ev, db', Some e)
         | (ev, db', None) \<Rightarrow>
             (case modules_loop rejects ec (Suc modIndex) rest db' of
                (ev', r) \<Rightarrow> (ev @ ev', r))))"

section \<open>The retry loop\<close>

text \<open>
  One call of the generator either throws, with a message, or answers with a text.  An
  answer without text makes \<^verbatim>\<open>output.trim()\<close> throw inside the same \<^verbatim>\<open>try\<close>: it is a
  \<open>Throws\<close> too.  The generator is the sequence of the outcomes of its calls; a call
  takes the first and leaves the rest.
\<close>

datatype gen_outcome = Throws string | Text string

text \<open>How the loop is left: by \<^verbatim>\<open>return\<close>, or with the value of \<^verbatim>\<open>output\<close>.\<close>

datatype gen_result = Aborted | Output "string option"

definition maxAttempts :: nat where
  "maxAttempts = 3"

function generate_loop :: "(nat \<Rightarrow> gen_outcome) \<Rightarrow> nat \<Rightarrow> event list \<times> gen_result" where
  "generate_loop gen attempt =
     (if attempt < maxAttempts then
        (case gen 0 of
           Text t \<Rightarrow>
             ([LogAttempt (attempt + 1), GenerateContent, LogResponseReceived],
              Output (Some (strip_fences t)))
         | Throws msg \<Rightarrow>
             (if attempt + 1 = maxAttempts
              then ([LogAttempt (attempt + 1), GenerateContent,
                     ErrGenerationFailed (attempt + 1) msg, ErrMaxAttempts], Aborted)
              else
                (case generate_loop (\<lambda>n. gen (Suc n)) (attempt + 1) of
                   (ev, r) \<Rightarrow>
                     ([LogAttempt (attempt + 1), GenerateContent,
                       ErrGenerationFailed (attempt + 1) msg, Sleep 1000] @ ev, r))))
      else ([], Output None))"
  by pat_completeness auto
termination
  by (relation "measure (\<lambda>(gen, attempt). maxAttempts - attempt)") auto

declare generate_loop.simps [simp del]

section \<open>Parsing the answer\<close>

text \<open>
  The callback of line 128:
  \<^verbatim>\<open>block.type && ['paragraph', 'video', 'mcq'].includes(block.type)\<close>.
\<close>

fun flat_filter :: "jsval list \<Rightarrow> js_error + jsval list" where
  "flat_filter [] = Inr []"
| "flat_filter (b # bs) =
     (if nullish b then Inl TypeError
      else case flat_filter bs of
        Inl e \<Rightarrow> Inl e
      | Inr vs \<Rightarrow>
          Inr (if truthy (property b ''type'') \<and> property b ''type'' \<in> set block_types
               then b # vs else vs))"

definition synthetic :: "jsval list \<Rightarrow> jsval" where
  "synthetic content =
     JObj [(''modules'', JArr [JObj [(''lessons'', JArr [JObj [(''content'', JArr content)]])]])]"

text \<open>
  Lines 117 to 146.  \<open>JSON_parse\<close> is the built-in parser, \<open>None\<close> where it throws; on
  \<^verbatim>\<open>undefined\<close> it throws.  Every exception inside the \<^verbatim>\<open>try\<close> ends in the same handler,
  which prints the raw output.  The result is \<open>None\<close> where the script returns.
\<close>

definition parse_phase ::
  "(string \<Rightarrow> jsval option) \<Rightarrow> string option \<Rightarrow> event list \<times> jsval option" where
  "parse_phase JSON_parse output =
     (case (case output of None \<Rightarrow> None | Some s \<Rightarrow> JSON_parse s) of
        None \<Rightarrow> ([ErrJsonParse, LogRawOutput output], None)
      | Some parsed \<Rightarrow>
          if nullish parsed then ([ErrJsonParse, LogRawOutput output], None)
          else if \<not> truthy (property parsed ''modules'') \<or> \<not> isArray (property parsed ''modules'')
          then
            (case parsed of
               JArr blocks \<Rightarrow>
                 (case flat_filter blocks of
                    Inl e \<Rightarrow> ([WarnFlatArray, ErrJsonParse, LogRawOutput output], None)
                  | Inr content \<Rightarrow>
                      ([WarnFlatArray, LogParsed (synthetic content)], Some (synthetic content)))
             | _ \<Rightarrow> ([ErrNoModules parsed], None))
          else ([LogParsed parsed], Some parsed))"

section \<open>The run\<close>

text \<open>
  The function \<^verbatim>\<open>test\<close>, given what \<^verbatim>\<open>findUnique\<close> returned.  The prompt is the same
  at every call of the generator and is not modelled.  The result is the trace and the
  store at the end.
\<close>

definition test ::
  "course option \<Rightarrow> (nat \<Rightarrow> gen_outcome) \<Rightarrow> (string \<Rightarrow> jsval option) \<Rightarrow> store_check \<Rightarrow> database \<Rightarrow>
   event list \<times> database" where
  "test found gen JSON_parse rejects db =
     (case found of
        None \<Rightarrow> ([ErrCourseNotFound], db)
      | Some course \<Rightarrow>
          (case generate_loop gen 0 of
             (ev1, Aborted) \<Rightarrow> (ev1, db)
           | (ev1, Output output) \<Rightarrow>
               (case parse_phase JSON_parse output of
                  (ev2, None) \<Rightarrow> (ev1 @ ev2, db)
                | (ev2, Some enrichedContent) \<Rightarrow>
                    (case modules_loop rejects enrichedContent 0 (course_modules course) db of
                       (ev3, db', None) \<Rightarrow>
                         (ev1 @ ev2 @ [LogEnriched] @ ev3 @ [LogAllEnriched, Disconnect], db')
                     | (ev3, db', Some e) \<Rightarrow>
                         (ev1 @ ev2 @ [LogEnriched] @ ev3 @ [ErrDatabase, Disconnect], db')))))"

section \<open>Vocabulary of the statements\<close>

text \<open>
  A block passes the validation of lines 161 to 171: its type is one of the three words
  and, for an \<^verbatim>\<open>mcq\<close>, the question and the explanation are truthy, the options are an
  array and the answer is neither \<^verbatim>\<open>null\<close> nor \<^verbatim>\<open>undefined\<close>.
\<close>

definition block_kept :: "jsval \<Rightarrow> bool" where
  "block_kept b =
     (property b ''type'' \<in> set block_types \<and>
      (if property b ''type'' = JStr ''mcq''
       then truthy (property b ''question'') \<and> isArray (property b ''options'') \<and>
            \<not> nullish (property b ''answer'') \<and> truthy (property b ''explanation'')
       else True))"

text \<open>The warning printed for a block that is dropped.\<close>

definition block_warning :: "string \<Rightarrow> jsval \<Rightarrow> event" where
  "block_warning title b =
     (if property b ''type'' \<in> set block_types then WarnInvalidMcq title b
      else WarnInvalidType title b)"

text \<open>The type of a block as a string, empty where the type is not a string.\<close>

definition type_of_block :: "jsval \<Rightarrow> string" where
  "type_of_block b = (case property b ''type'' of JStr s \<Rightarrow> s | _ \<Rightarrow> [])"

text \<open>What \<open>block_data\<close> returns on a block that passed validation.\<close>

definition created_block :: "nat \<Rightarrow> jsval \<Rightarrow> block_create" where
  "created_block index b =
     \<lparr> bc_order = index,
       bc_type = toUpperCase (type_of_block b),
       bc_text = or_else (property b ''text'') JNull,
       bc_language = or_else (property b ''language'') JNull,
       bc_videoUrl = (if type_of_block b = ''video'' then property b ''text'' else JNull),
       bc_mcq = (if type_of_block b = ''mcq''
                 then Some \<lparr> mc_question = property b ''question'',
                             mc_options = property b ''options'',
                             mc_answer = property b ''answer'',
                             mc_explanation = property b ''explanation'' \<rparr>
                 else None) \<rparr>"

text \<open>\<open>s\<close> is \<open>w\<close> in another letter case.\<close>

definition case_variant :: "string \<Rightarrow> string \<Rightarrow> bool" where
  "case_variant s w = (toUpperCase s = toUpperCase w \<and> s \<noteq> w)"

subsection \<open>Sample values\<close>

definition par_block :: jsval where
  "par_block = JObj [(''type'', JStr ''paragraph''), (''text'', JStr ''A'')]"

definition video_block :: jsval where
  "video_block = JObj [(''type'', JStr ''video''), (''text'', JStr ''V'')]"

definition mcq_block :: jsval where
  "mcq_block =
     JObj [(''type'', JStr ''mcq''), (''question'', JStr ''Q''),
           (''options'', JArr [JStr ''a'', JStr ''b'']), (''answer'', JNum 0),
           (''explanation'', JStr ''E'')]"

definition mcq_blank_explanation :: jsval where
  "mcq_blank_explanation =
     JObj [(''type'', JStr ''mcq''), (''question'', JStr ''Q''),
           (''options'', JArr [JStr ''a'', JStr ''b'']), (''answer'', JNum 0),
           (''explanation'', JStr [])]"

definition sample_course :: course where
  "sample_course =
     \<lparr> course_title = ''C'',
       course_modules =
         [\<lparr> module_title = ''M'',
            module_lessons = [\<lparr> lesson_id = ''l1'', lesson_title = ''L1'' \<rparr>,
                              \<lparr> lesson_id = ''l2'', lesson_title = ''L2'' \<rparr>] \<rparr>] \<rparr>"

text \<open>
  A store with two lessons; lesson \<open>l1\<close> has been enriched before and owns a content
  block with its option row and a video search.
\<close>

definition sample_db :: database where
  "sample_db =
     \<lparr> lessonTable =
         [''l1'' \<mapsto> \<lparr> lr_title = ''L1'', lr_objectives = [''o''], lr_isEnriched = True \<rparr>,
          ''l2'' \<mapsto> \<lparr> lr_title = ''L2'', lr_objectives = [], lr_isEnriched = False \<rparr>],
       contentBlockTable =
         [\<lparr> cb_id = 1, cb_order = 0, cb_type = ''MCQ'', cb_text = JNull, cb_language = JNull,
            cb_videoUrl = JNull, cb_lessonId = ''l1'', cb_mcqId = Some 0 \<rparr>],
       mcqOptionTable =
         [\<lparr> mo_id = 0, mo_question = JStr ''old'', mo_options = JArr [JStr ''x''],
            mo_answer = JNum 0, mo_explanation = JStr ''old'' \<rparr>],
       videoSearchTable = [\<lparr> vs_id = 2, vs_query = JStr ''old'', vs_lessonId = ''l1'' \<rparr>],
       nextId = 3 \<rparr>"

text \<open>The test of line 128 on a block of a bare array.\<close>

definition typed_block :: "jsval \<Rightarrow> bool" where
  "typed_block b = (property b ''type'' \<in> set block_types)"

text \<open>The content blocks that the loops read for the lesson at position \<open>(i, j)\<close>.\<close>

definition paired_content :: "jsval \<Rightarrow> nat \<Rightarrow> nat \<Rightarrow> jsval" where
  "paired_content ec i j = contentBlocks (enrichedLesson (enrichedModule ec i) j)"

text \<open>
  The lessons of the course tree with their positions, module by module, and the run
  over such a list: each lesson is processed with the content paired with its position,
  and the first exception ends the run.
\<close>

definition positions :: "course_module list \<Rightarrow> (nat \<times> nat \<times> lesson) list" where
  "positions ms =
     concat (map (\<lambda>(i, m). map (\<lambda>(j, l). (i, j, l)) (enumerate 0 (module_lessons m)))
                 (enumerate 0 ms))"

fun run_positions ::
  "store_check \<Rightarrow> jsval \<Rightarrow> (nat \<times> nat \<times> lesson) list \<Rightarrow> database \<Rightarrow>
   event list \<times> database \<times> js_error option" where
  "run_positions rejects ec [] db = ([], db, None)"
| "run_positions rejects ec ((i, j, l) # ps) db =
     (case process_lesson rejects l (paired_content ec i j) db of
        (ev, db', Some e) \<Rightarrow> (ev, db', Some e)
      | (ev, db', None) \<Rightarrow>
          (case run_positions rejects ec ps db' of (ev', r) \<Rightarrow> (ev @ ev', r)))"

text \<open>An answer with one module of one lesson, for a course with two lessons.\<close>

definition sample_answer :: jsval where
  "sample_answer =
     JObj [(''modules'',
            JArr [JObj [(''lessons'', JArr [JObj [(''content'', JArr [par_block])]])]])]"
subsection \<open>Reading the store\<close>

text \<open>The rows of a lesson in the two child tables, in table order.\<close>

definition lesson_blocks :: "database \<Rightarrow> string \<Rightarrow> content_block_row list" where
  "lesson_blocks db lid = filter (\<lambda>r. cb_lessonId r = lid) (contentBlockTable db)"

definition lesson_videos :: "database \<Rightarrow> string \<Rightarrow> video_search_row list" where
  "lesson_videos db lid = filter (\<lambda>r. vs_lessonId r = lid) (videoSearchTable db)"

text \<open>The option rows that a content block references through its \<^verbatim>\<open>mcqId\<close>.\<close>

definition mcq_of :: "database \<Rightarrow> content_block_row \<Rightarrow> mcq_option_row list" where
  "mcq_of db r =
     (case cb_mcqId r of
        None \<Rightarrow> []
      | Some k \<Rightarrow> filter (\<lambda>m. mo_id m = k) (mcqOptionTable db))"

text \<open>A row without its id and keys, to compare rows with the data they were made from.\<close>

definition option_data :: "mcq_option_row \<Rightarrow> mcq_create" where
  "option_data m =
     \<lparr> mc_question = mo_question m, mc_options = mo_options m, mc_answer = mo_answer m,
       mc_explanation = mo_explanation m \<rparr>"

definition block_fields :: "content_block_row \<Rightarrow> nat \<times> string \<times> jsval \<times> jsval \<times> jsval" where
  "block_fields r = (cb_order r, cb_type r, cb_text r, cb_language r, cb_videoUrl r)"

definition create_fields :: "block_create \<Rightarrow> nat \<times> string \<times> jsval \<times> jsval \<times> jsval" where
  "create_fields c = (bc_order c, bc_type c, bc_text c, bc_language c, bc_videoUrl c)"

definition create_options :: "block_create \<Rightarrow> mcq_create list" where
  "create_options c = (case bc_mcq c of None \<Rightarrow> [] | Some m \<Rightarrow> [m])"

text \<open>
  The content of a lesson as a reader sees it: its two columns, its content blocks in
  table order, each with the options it references, and the queries of its video
  searches.
\<close>

definition lesson_content ::
  "database \<Rightarrow> string \<Rightarrow>
   lesson_row option \<times> ((nat \<times> string \<times> jsval \<times> jsval \<times> jsval) \<times> mcq_create list) list \<times> jsval list" where
  "lesson_content db lid =
     (lessonTable db lid,
      map (\<lambda>r. (block_fields r, map option_data (mcq_of db r))) (lesson_blocks db lid),
      map vs_query (lesson_videos db lid))"

text \<open>The lesson row after an enrichment write.\<close>

definition enriched :: "lesson_row \<Rightarrow> lesson_row" where
  "enriched row = row\<lparr> lr_objectives := [], lr_isEnriched := True \<rparr>"

text \<open>The id generator has not yet given out an id that is in the option table.\<close>

definition fresh_ids :: "database \<Rightarrow> bool" where
  "fresh_ids db = list_all (\<lambda>m. mo_id m < nextId db) (mcqOptionTable db)"

text \<open>Among the option rows \<open>ms\<close>, the data of those that a content block references.\<close>

definition new_options_of :: "mcq_option_row list \<Rightarrow> content_block_row \<Rightarrow> mcq_create list" where
  "new_options_of ms r =
     (case cb_mcqId r of
        None \<Rightarrow> []
      | Some k \<Rightarrow> map option_data (filter (\<lambda>m. mo_id m = k) ms))"

text \<open>The data that \<open>lesson_data\<close> returns on blocks that passed validation.\<close>

definition update_of :: "jsval list \<Rightarrow> update_data" where
  "update_of validBlocks =
     \<lparr> ud_isEnriched = True,
       ud_objectives = [],
       ud_blocks_deleteMany = True,
       ud_blocks_create = map (\<lambda>(k, b). created_block k b) (enumerate 0 validBlocks),
       ud_videos_deleteMany = True,
       ud_videos_create =
         map (\<lambda>b. property b ''text'')
             (filter (\<lambda>b. type_of_block b = ''video'') validBlocks) \<rparr>"

text \<open>An \<^verbatim>\<open>mcq\<close> block with no option to choose from and the answer 5.\<close>

definition mcq_no_options :: jsval where
  "mcq_no_options =
     JObj [(''type'', JStr ''mcq''), (''question'', JStr ''Q''), (''options'', JArr []),
           (''answer'', JNum 5), (''explanation'', JStr ''E'')]"

definition lesson1 :: lesson where
  "lesson1 = \<lparr> lesson_id = ''l1'', lesson_title = ''L1'' \<rparr>"

text \<open>A store that takes every write.\<close>

definition accepts_all :: store_check where
  "accepts_all db lid data = False"

text \<open>The sample store after one and after two runs of the loop body on the same content.\<close>

definition after_one_run :: database where
  "after_one_run = fst (snd (process_lesson accepts_all lesson1 (JArr [mcq_block]) sample_db))"

definition after_two_runs :: database where
  "after_two_runs =
     fst (snd (process_lesson accepts_all lesson1 (JArr [mcq_block]) after_one_run))"

text \<open>The sample store after the loop body has written three valid blocks of four.\<close>

definition sample_written :: database where
  "sample_written =
     fst (snd (process_lesson accepts_all lesson1
                 (JArr [par_block, JNum 3, mcq_block, video_block]) sample_db))"

section \<open>Validation and the data of an update\<close>

lemmas sample_blocks = par_block_def video_block_def mcq_block_def

lemma truthy_block_types: "v \<in> set block_types \<Longrightarrow> truthy v"
  by (auto simp: block_types_def)

lemma validate_block_eq:
  "\<not> nullish b \<Longrightarrow>
   validate_block t b =
     (if block_kept b then ([], Inr True) else ([block_warning t b], Inr False))"
  by (auto simp: validate_block_def block_kept_def block_warning_def dest: truthy_block_types)

lemma validate_block_nullish: "nullish b \<Longrightarrow> validate_block t b = ([], Inl TypeError)"
  by (simp add: validate_block_def)

lemma validate_block_True: "validate_block t b = (ev, Inr True) \<Longrightarrow> block_kept b \<and> ev = []"
  by (cases "nullish b") (auto simp: validate_block_nullish validate_block_eq split: if_splits)

lemma block_kept_type:
  "block_kept b \<Longrightarrow>
   \<not> nullish b \<and> property b ''type'' = JStr (type_of_block b) \<and>
   type_of_block b \<in> {''paragraph'', ''video'', ''mcq''}"
  by (cases b) (auto simp: block_kept_def block_types_def type_of_block_def)

lemma block_data_kept: "block_kept b \<Longrightarrow> block_data i b = Inr (created_block i b)"
  using block_kept_type [of b] by (auto simp: block_data_def created_block_def)

lemma filter_valid_eq:
  "\<forall>b\<in>set bs. \<not> nullish b \<Longrightarrow>
   filter_valid t bs =
     (concat (map (\<lambda>b. if block_kept b then [] else [block_warning t b]) bs),
      Inr (filter block_kept bs))"
  by (induction bs) (simp_all add: validate_block_eq)

lemma filter_valid_Inr:
  "filter_valid t bs = (ev, Inr vs) \<Longrightarrow> \<forall>b\<in>set bs. \<not> nullish b"
proof (induction bs arbitrary: ev vs)
  case Nil
  then show ?case by simp
next
  case (Cons b bs)
  show ?case
  proof (cases "nullish b")
    case True
    with Cons.prems show ?thesis by (simp add: validate_block_nullish)
  next
    case False
    with Cons show ?thesis
      by (auto simp: validate_block_eq split: prod.splits sum.splits if_splits)
  qed
qed

lemma filter_valid_result:
  assumes "filter_valid t bs = (ev, Inr vs)"
  shows "vs = filter block_kept bs"
    and "ev = concat (map (\<lambda>b. if block_kept b then [] else [block_warning t b]) bs)"
    and "\<forall>b\<in>set vs. block_kept b"
  using assms filter_valid_eq [OF filter_valid_Inr [OF assms], of t] by auto

lemma blocks_data_kept:
  "\<forall>b\<in>set vs. block_kept b \<Longrightarrow>
   blocks_data i vs = Inr (map (\<lambda>(k, b). created_block k b) (enumerate i vs))"
  by (induction vs arbitrary: i) (simp_all add: block_data_kept)

lemma videos_data_kept:
  "\<forall>b\<in>set vs. block_kept b \<Longrightarrow>
   videos_data vs =
     Inr (map (\<lambda>b. property b ''text'') (filter (\<lambda>b. type_of_block b = ''video'') vs))"
proof (induction vs)
  case Nil
  then show ?case by simp
next
  case (Cons b vs)
  then have "block_kept b" by simp
  from block_kept_type [OF this] Cons show ?case by auto
qed

lemma lesson_data_kept:
  "\<forall>b\<in>set vs. block_kept b \<Longrightarrow>
   lesson_data vs =
     Inr \<lparr> ud_isEnriched = True, ud_objectives = [], ud_blocks_deleteMany = True,
           ud_blocks_create = map (\<lambda>(k, b). created_block k b) (enumerate 0 vs),
           ud_videos_deleteMany = True,
           ud_videos_create =
             map (\<lambda>b. property b ''text'') (filter (\<lambda>b. type_of_block b = ''video'') vs) \<rparr>"
  by (simp add: lesson_data_def blocks_data_kept videos_data_kept)



lemma toUpperCase_words:
  "toUpperCase ''paragraph'' = ''PARAGRAPH''"
  "toUpperCase ''video'' = ''VIDEO''"
  "toUpperCase ''mcq'' = ''MCQ''"
  by (simp_all add: toUpperCase_def upper_char_def)

section \<open>Claims about validation\<close>

text \<open>
  C5, as the script has it.  Among blocks that are not \<^verbatim>\<open>null\<close>, the filter keeps
  exactly those whose type is \<^verbatim>\<open>paragraph\<close>, \<^verbatim>\<open>video\<close> or \<^verbatim>\<open>mcq\<close> and which, when the
  type is \<^verbatim>\<open>mcq\<close>, have a truthy question, an array of options, an answer that is
  neither \<^verbatim>\<open>null\<close> nor \<^verbatim>\<open>undefined\<close>, and a truthy explanation (an empty explanation
  does not pass).  Each dropped block is reported by one warning, in order, and the
  filter goes on to its end.
\<close>

theorem validation_keeps_exactly:
  "\<forall>b\<in>set blocks. \<not> nullish b \<Longrightarrow>
   filter_valid title blocks =
     (concat (map (\<lambda>b. if block_kept b then [] else [block_warning title b]) blocks),
      Inr (filter block_kept blocks))"
  by (rule filter_valid_eq)

theorem validation_keeps_exactly_witness:
  "filter_valid ''L'' [par_block, mcq_blank_explanation, JNum 3, mcq_block] =
     ([WarnInvalidMcq ''L'' mcq_blank_explanation, WarnInvalidType ''L'' (JNum 3)],
      Inr [par_block, mcq_block])"
  using validation_keeps_exactly [of "[par_block, mcq_blank_explanation, JNum 3, mcq_block]" "''L''"]
  by (simp add: sample_blocks mcq_blank_explanation_def block_kept_def block_warning_def
        block_types_def)

text \<open>
  C5 as the specification words it asks of an \<^verbatim>\<open>mcq\<close> block an explanation that is not
  \<^verbatim>\<open>null\<close>.  This block has a question, an array of options, an answer and the empty
  string as its explanation, which is not \<^verbatim>\<open>null\<close>; the script drops it.
\<close>

theorem blank_explanation_dropped:
  "property mcq_blank_explanation ''type'' = JStr ''mcq'' \<and>
   truthy (property mcq_blank_explanation ''question'') \<and>
   isArray (property mcq_blank_explanation ''options'') \<and>
   \<not> nullish (property mcq_blank_explanation ''answer'') \<and>
   \<not> nullish (property mcq_blank_explanation ''explanation'') \<and>
   validate_block ''L'' mcq_blank_explanation =
     ([WarnInvalidMcq ''L'' mcq_blank_explanation], Inr False)"
  by (simp add: mcq_blank_explanation_def validate_block_def block_types_def)



section \<open>The retry loop and the parser\<close>

lemma generate_loop_cases:
  "generate_loop gen 0 =
     (case gen 0 of
        Text t \<Rightarrow>
          ([LogAttempt 1, GenerateContent, LogResponseReceived], Output (Some (strip_fences t)))
      | Throws m0 \<Rightarrow>
          (case gen 1 of
             Text t \<Rightarrow>
               ([LogAttempt 1, GenerateContent, ErrGenerationFailed 1 m0, Sleep 1000,
                 LogAttempt 2, GenerateContent, LogResponseReceived],
                Output (Some (strip_fences t)))
           | Throws m1 \<Rightarrow>
               (case gen 2 of
                  Text t \<Rightarrow>
                    ([LogAttempt 1, GenerateContent, ErrGenerationFailed 1 m0, Sleep 1000,
                      LogAttempt 2, GenerateContent, ErrGenerationFailed 2 m1, Sleep 1000,
                      LogAttempt 3, GenerateContent, LogResponseReceived],
                     Output (Some (strip_fences t)))
                | Throws m2 \<Rightarrow>
                    ([LogAttempt 1, GenerateContent, ErrGenerationFailed 1 m0, Sleep 1000,
                      LogAttempt 2, GenerateContent, ErrGenerationFailed 2 m1, Sleep 1000,
                      LogAttempt 3, GenerateContent, ErrGenerationFailed 3 m2, ErrMaxAttempts],
                     Aborted))))"
  by (simp add: generate_loop.simps maxAttempts_def numeral_2_eq_2 numeral_3_eq_3
        split: gen_outcome.splits)

lemma all_ws_trim:
  assumes "\<forall>c\<in>set ws1. js_whitespace c" "\<forall>c\<in>set ws2. js_whitespace c"
    "x \<noteq> []" "\<not> js_whitespace (hd x)" "\<not> js_whitespace (last x)"
  shows "trim (ws1 @ x @ ws2) = x"
proof -
  have a: "dropWhile js_whitespace (ws1 @ x @ ws2) = x @ ws2"
    using assms by (cases x) (simp_all add: dropWhile_append2)
  have "dropWhile js_whitespace (rev ws2 @ rev x) = dropWhile js_whitespace (rev x)"
    by (rule dropWhile_append2) (use assms in auto)
  moreover have "dropWhile js_whitespace (rev x) = rev x"
    using assms by (cases x rule: rev_cases) simp_all
  ultimately have b: "dropWhile js_whitespace (rev ws2 @ rev x) = rev x"
    by simp
  show ?thesis by (simp add: trim_def a b)
qed

lemma strip_fences_fenced:
  assumes "\<forall>c\<in>set ws1. js_whitespace c" "\<forall>c\<in>set ws2. js_whitespace c"
  shows "strip_fences (ws1 @ ''```json'' @ body @ ''```'' @ ws2) = trim body"
proof -
  have "trim (ws1 @ (''```json'' @ body @ ''```'') @ ws2) = ''```json'' @ body @ ''```''"
    by (rule all_ws_trim [OF assms]) (simp_all add: js_whitespace_def)
  then show ?thesis
    by (simp add: strip_fences_def strip_prefix_def strip_suffix_def)
qed

lemma trim_ends:
  "trim s \<noteq> [] \<Longrightarrow> \<not> js_whitespace (hd (trim s)) \<and> \<not> js_whitespace (last (trim s))"
proof -
  let ?y = "dropWhile js_whitespace s"
  let ?z = "dropWhile js_whitespace (rev ?y)"
  assume "trim s \<noteq> []"
  then have z: "?z \<noteq> []"
    by (simp add: trim_def)
  then have hz: "\<not> js_whitespace (hd ?z)"
    by (rule hd_dropWhile)
  have y: "?y \<noteq> []"
  proof
    assume e: "?y = []"
    have "?z = []"
      unfolding e by simp
    with z show False ..
  qed
  then have hy: "\<not> js_whitespace (hd ?y)"
    by (rule hd_dropWhile)
  have "rev ?y = takeWhile js_whitespace (rev ?y) @ ?z"
    by simp
  then have "last (rev ?y) = last ?z"
    using z by (metis last_appendR)
  with y have "last ?z = hd ?y"
    by (simp add: last_rev)
  with hy hz z show ?thesis
    by (simp add: trim_def hd_rev last_rev)
qed

lemma trim_trim: "trim (trim s) = trim s"
proof (cases "trim s = []")
  case True
  have "trim [] = []"
    by (simp add: trim_def)
  with True show ?thesis by simp
next
  case False
  from all_ws_trim [of "[]" "[]" "trim s"] trim_ends [OF False] False show ?thesis
    by simp
qed

lemma strip_suffix_absent: "\<forall>b. x \<noteq> b @ p \<Longrightarrow> strip_suffix p x = x"
proof -
  assume a: "\<forall>b. x \<noteq> b @ p"
  have "take (length (rev p)) (rev x) \<noteq> rev p"
  proof
    assume "take (length (rev p)) (rev x) = rev p"
    then have "rev x = rev p @ drop (length (rev p)) (rev x)"
      by (metis append_take_drop_id)
    then have "x = rev (drop (length (rev p)) (rev x)) @ p"
      by (metis rev_append rev_rev_ident)
    with a show False by blast
  qed
  then show ?thesis
    by (simp add: strip_suffix_def strip_prefix_def)
qed

lemma strip_fences_plain:
  assumes "take 7 (trim s) \<noteq> ''```json''" "\<forall>b. trim s \<noteq> b @ ''```''"
  shows "strip_fences s = trim s"
proof -
  have p: "strip_prefix ''```json'' (trim s) = trim s"
    using assms(1) by (simp add: strip_prefix_def eval_nat_numeral)
  have q: "strip_suffix ''```'' (trim s) = trim s"
    by (rule strip_suffix_absent [OF assms(2)])
  show ?thesis
    by (simp only: strip_fences_def p q trim_trim)
qed

lemma strip_prefix_present: "strip_prefix p (p @ b) = b"
  by (simp add: strip_prefix_def)

lemma strip_suffix_present: "strip_suffix p (b @ p) = b"
  by (simp add: strip_suffix_def strip_prefix_def)

lemma trim_all_ws:
  assumes "\<forall>c\<in>set ws. js_whitespace c"
  shows "trim ws = []"
proof -
  have "dropWhile js_whitespace ws = []"
    unfolding dropWhile_eq_Nil_conv using assms by blast
  then show ?thesis
    by (simp only: trim_def) simp
qed

lemma trim_padded:
  assumes "\<forall>c\<in>set ws1. js_whitespace c" "\<forall>c\<in>set ws2. js_whitespace c"
    "x = [] \<or> \<not> js_whitespace (hd x) \<and> \<not> js_whitespace (last x)"
  shows "trim (ws1 @ x @ ws2) = x"
proof (cases "x = []")
  case True
  have "trim (ws1 @ ws2) = []"
    by (rule trim_all_ws) (use assms in auto)
  with True show ?thesis by simp
next
  case False
  with assms show ?thesis
    by (simp add: all_ws_trim)
qed

lemma strip_fences_both:
  "trim raw = ''```json'' @ b @ ''```'' \<Longrightarrow> strip_fences raw = trim b"
  by (simp only: strip_fences_def strip_prefix_present strip_suffix_present)

lemma strip_fences_leading:
  assumes "trim raw = ''```json'' @ b" "\<forall>c. b \<noteq> c @ ''```''"
  shows "strip_fences raw = trim b"
  by (simp only: strip_fences_def assms(1) strip_prefix_present strip_suffix_absent [OF assms(2)])

lemma strip_fences_trailing:
  assumes "take 7 (trim raw) \<noteq> ''```json''" "trim raw = b @ ''```''"
  shows "strip_fences raw = trim b"
proof -
  have p: "strip_prefix ''```json'' (trim raw) = trim raw"
    using assms(1) by (simp add: strip_prefix_def eval_nat_numeral)
  show ?thesis
    by (simp only: strip_fences_def p) (simp only: assms(2) strip_suffix_present)
qed

lemma flat_filter_eq:
  "\<forall>b\<in>set bs. \<not> nullish b \<Longrightarrow> flat_filter bs = Inr (filter typed_block bs)"
  by (induction bs) (auto simp: typed_block_def dest: truthy_block_types)

lemma flat_filter_nullish: "b \<in> set bs \<Longrightarrow> nullish b \<Longrightarrow> flat_filter bs = Inl TypeError"
  by (induction bs) (auto split: sum.splits)

lemma isArray_truthy: "isArray v \<Longrightarrow> truthy v"
  by (cases v) simp_all

lemma parse_phase_cases:
  "parse_phase JSON_parse (Some s) =
     (case JSON_parse s of
        None \<Rightarrow> ([ErrJsonParse, LogRawOutput (Some s)], None)
      | Some parsed \<Rightarrow>
          if isArray (property parsed ''modules'') then ([LogParsed parsed], Some parsed)
          else
            (case parsed of
               JArr blocks \<Rightarrow>
                 if \<exists>b\<in>set blocks. nullish b
                 then ([WarnFlatArray, ErrJsonParse, LogRawOutput (Some s)], None)
                 else ([WarnFlatArray, LogParsed (synthetic (filter typed_block blocks))],
                       Some (synthetic (filter typed_block blocks)))
             | JUndefined \<Rightarrow> ([ErrJsonParse, LogRawOutput (Some s)], None)
             | JNull \<Rightarrow> ([ErrJsonParse, LogRawOutput (Some s)], None)
             | _ \<Rightarrow> ([ErrNoModules parsed], None)))"
proof (cases "JSON_parse s")
  case None
  then show ?thesis by (simp add: parse_phase_def)
next
  case (Some parsed)
  show ?thesis
  proof (cases "isArray (property parsed ''modules'')")
    case True
    then have "\<not> nullish parsed" by (cases parsed) auto
    with True Some show ?thesis
      by (simp add: parse_phase_def isArray_truthy)
  next
    case False
    show ?thesis
    proof (cases parsed)
      case (JArr blocks)
      show ?thesis
      proof (cases "\<exists>b\<in>set blocks. nullish b")
        case True
        then obtain b where "b \<in> set blocks" "nullish b"
          by blast
        then have "flat_filter blocks = Inl TypeError"
          by (rule flat_filter_nullish)
        with Some JArr True show ?thesis
          by (simp add: parse_phase_def)
      next
        case no_null: False
        then have "flat_filter blocks = Inr (filter typed_block blocks)"
          by (simp add: flat_filter_eq)
        with Some JArr no_null show ?thesis
          by (simp add: parse_phase_def)
      qed
    qed (use Some False in \<open>simp_all add: parse_phase_def\<close>)
  qed
qed

lemma test_aborted_parse:
  "generate_loop gen 0 = (ev1, Output out) \<Longrightarrow> parse_phase JSON_parse out = (ev2, None) \<Longrightarrow>
   test (Some c) gen JSON_parse rejects db = (ev1 @ ev2, db)"
  by (simp add: test_def)

section \<open>Claims about the generation call and the parser\<close>

text \<open>
  C2.  The loop started at attempt 0 calls the generator at most three times.  It is
  left at the first call that answers, with the text of that answer (after the fence
  stripping of line 103, which stands inside the loop): after two failures and an answer
  the third attempt succeeds.  After each failed attempt that is not the third the run
  waits 1000 milliseconds before the next attempt.  When all three calls throw, the
  run ends there, with the store as it was and no update issued.
\<close>

theorem generation_attempted_at_most_three_times:
  "generate_loop gen 0 =
     (case gen 0 of
        Text t \<Rightarrow>
          ([LogAttempt 1, GenerateContent, LogResponseReceived], Output (Some (strip_fences t)))
      | Throws m0 \<Rightarrow>
          (case gen 1 of
             Text t \<Rightarrow>
               ([LogAttempt 1, GenerateContent, ErrGenerationFailed 1 m0, Sleep 1000,
                 LogAttempt 2, GenerateContent, LogResponseReceived],
                Output (Some (strip_fences t)))
           | Throws m1 \<Rightarrow>
               (case gen 2 of
                  Text t \<Rightarrow>
                    ([LogAttempt 1, GenerateContent, ErrGenerationFailed 1 m0, Sleep 1000,
                      LogAttempt 2, GenerateContent, ErrGenerationFailed 2 m1, Sleep 1000,
                      LogAttempt 3, GenerateContent, LogResponseReceived],
                     Output (Some (strip_fences t)))
                | Throws m2 \<Rightarrow>
                    ([LogAttempt 1, GenerateContent, ErrGenerationFailed 1 m0, Sleep 1000,
                      LogAttempt 2, GenerateContent, ErrGenerationFailed 2 m1, Sleep 1000,
                      LogAttempt 3, GenerateContent, ErrGenerationFailed 3 m2, ErrMaxAttempts],
                     Aborted)))) \<and>
   length (filter (\<lambda>e. e = GenerateContent) (fst (generate_loop gen 0))) \<le> 3 \<and>
   (gen 0 = Throws m0 \<and> gen 1 = Throws m1 \<and> gen 2 = Throws m2 \<longrightarrow>
      test (Some c) gen JSON_parse rejects db =
        ([LogAttempt 1, GenerateContent, ErrGenerationFailed 1 m0, Sleep 1000,
          LogAttempt 2, GenerateContent, ErrGenerationFailed 2 m1, Sleep 1000,
          LogAttempt 3, GenerateContent, ErrGenerationFailed 3 m2, ErrMaxAttempts], db))"
proof (intro conjI impI)
  show "length (filter (\<lambda>e. e = GenerateContent) (fst (generate_loop gen 0))) \<le> 3"
    by (simp add: generate_loop_cases split: gen_outcome.splits)
next
  assume "gen 0 = Throws m0 \<and> gen 1 = Throws m1 \<and> gen 2 = Throws m2"
  then show "test (Some c) gen JSON_parse rejects db =
        ([LogAttempt 1, GenerateContent, ErrGenerationFailed 1 m0, Sleep 1000,
          LogAttempt 2, GenerateContent, ErrGenerationFailed 2 m1, Sleep 1000,
          LogAttempt 3, GenerateContent, ErrGenerationFailed 3 m2, ErrMaxAttempts], db)"
    by (simp add: test_def generate_loop_cases)
qed (rule generate_loop_cases)

theorem generation_attempted_at_most_three_times_witness:
  "generate_loop (\<lambda>n. if n < 2 then Throws ''down'' else Text ''{}'') 0 =
     ([LogAttempt 1, GenerateContent, ErrGenerationFailed 1 ''down'', Sleep 1000,
       LogAttempt 2, GenerateContent, ErrGenerationFailed 2 ''down'', Sleep 1000,
       LogAttempt 3, GenerateContent, LogResponseReceived], Output (Some ''{}'')) \<and>
   test (Some sample_course) (\<lambda>n. Throws ''down'') (\<lambda>s. None) (\<lambda>d l u. False) sample_db =
     ([LogAttempt 1, GenerateContent, ErrGenerationFailed 1 ''down'', Sleep 1000,
       LogAttempt 2, GenerateContent, ErrGenerationFailed 2 ''down'', Sleep 1000,
       LogAttempt 3, GenerateContent, ErrGenerationFailed 3 ''down'', ErrMaxAttempts],
      sample_db)"
  using generation_attempted_at_most_three_times
          [of "\<lambda>n. if n < 2 then Throws ''down'' else Text ''{}''" "''down''" "''down''" "''down''"
              sample_course "\<lambda>s. None" "\<lambda>d l u. False" sample_db]
        generation_attempted_at_most_three_times
          [of "\<lambda>n. Throws ''down''" "''down''" "''down''" "''down''"
              sample_course "\<lambda>s. None" "\<lambda>d l u. False" sample_db]
  by (simp add: strip_fences_def trim_def strip_prefix_def strip_suffix_def js_whitespace_def)

text \<open>
  C4, as the script has it.  The text of the answer is trimmed: what stands between
  leading and trailing white space is kept.  Then a leading \<^verbatim>\<open>```json\<close> is removed if
  the trimmed text starts with it, a trailing \<^verbatim>\<open>```\<close> is removed if what is left ends
  with it, each whether or not the other is there, and the rest is trimmed again and
  handed to the parser; a text without these markers is only trimmed.  A parsed value
  with an array under \<^verbatim>\<open>modules\<close> is used as it is.  A parsed bare array without a
  \<^verbatim>\<open>null\<close> element is wrapped into the synthetic shape, its content being the
  elements whose type is one of the three words.  When the parser throws, or the parsed
  value is \<^verbatim>\<open>null\<close>, or a bare array has a \<^verbatim>\<open>null\<close> element, the script prints the
  stripped text and returns.  On any other parsed value it prints that value, not the
  text, and returns.  Whenever the script returns in this phase, the run ends with the
  store as it was.
\<close>

theorem parser_shapes:
  "((\<forall>c\<in>set ws1. js_whitespace c) \<and> (\<forall>c\<in>set ws2. js_whitespace c) \<and>
    (x = [] \<or> \<not> js_whitespace (hd x) \<and> \<not> js_whitespace (last x)) \<longrightarrow>
      trim (ws1 @ x @ ws2) = x) \<and>
   ((\<forall>c\<in>set ws1. js_whitespace c) \<and> (\<forall>c\<in>set ws2. js_whitespace c) \<longrightarrow>
      strip_fences (ws1 @ ''```json'' @ body @ ''```'' @ ws2) = trim body) \<and>
   (trim both = ''```json'' @ inner @ ''```'' \<longrightarrow> strip_fences both = trim inner) \<and>
   (trim lead = ''```json'' @ rest \<and> (\<forall>c. rest \<noteq> c @ ''```'') \<longrightarrow> strip_fences lead = trim rest) \<and>
   (take 7 (trim trail) \<noteq> ''```json'' \<and> trim trail = front @ ''```'' \<longrightarrow>
      strip_fences trail = trim front) \<and>
   (take 7 (trim raw) \<noteq> ''```json'' \<and> (\<forall>b. trim raw \<noteq> b @ ''```'') \<longrightarrow>
      strip_fences raw = trim raw) \<and>
   parse_phase JSON_parse (Some s) =
     (case JSON_parse s of
        None \<Rightarrow> ([ErrJsonParse, LogRawOutput (Some s)], None)
      | Some parsed \<Rightarrow>
          if isArray (property parsed ''modules'') then ([LogParsed parsed], Some parsed)
          else
            (case parsed of
               JArr blocks \<Rightarrow>
                 if \<exists>b\<in>set blocks. nullish b
                 then ([WarnFlatArray, ErrJsonParse, LogRawOutput (Some s)], None)
                 else ([WarnFlatArray, LogParsed (synthetic (filter typed_block blocks))],
                       Some (synthetic (filter typed_block blocks)))
             | JUndefined \<Rightarrow> ([ErrJsonParse, LogRawOutput (Some s)], None)
             | JNull \<Rightarrow> ([ErrJsonParse, LogRawOutput (Some s)], None)
             | _ \<Rightarrow> ([ErrNoModules parsed], None))) \<and>
   (generate_loop gen 0 = (ev1, Output out) \<and> parse_phase JSON_parse out = (ev2, None) \<longrightarrow>
      test (Some c) gen JSON_parse rejects db = (ev1 @ ev2, db))"
  using trim_padded [of ws1 ws2 x] strip_fences_fenced [of ws1 ws2 body]
    strip_fences_both [of both inner] strip_fences_leading [of lead rest]
    strip_fences_trailing [of trail front] strip_fences_plain [of raw]
    parse_phase_cases [of JSON_parse s]
    test_aborted_parse [of gen ev1 out JSON_parse ev2 c rejects db]
  by blast

theorem parser_shapes_witness:
  "trim ''  {}  '' = ''{}'' \<and>
   strip_fences '' ```json{}``` '' = ''{}'' \<and>
   strip_fences ''```json {}'' = ''{}'' \<and>
   strip_fences ''{} ```'' = ''{}'' \<and>
   strip_fences '' {} '' = ''{}'' \<and>
   parse_phase (\<lambda>s. None) (Some ''oops'') = ([ErrJsonParse, LogRawOutput (Some ''oops'')], None) \<and>
   test (Some sample_course) (\<lambda>n. Text ''oops'') (\<lambda>s. None) (\<lambda>d l u. False) sample_db =
     ([LogAttempt 1, GenerateContent, LogResponseReceived, ErrJsonParse,
       LogRawOutput (Some ''oops'')], sample_db)"
proof -
  have g: "generate_loop (\<lambda>n. Text ''oops'') 0 =
             ([LogAttempt 1, GenerateContent, LogResponseReceived], Output (Some ''oops''))"
    by (simp add: generate_loop_cases strip_fences_def trim_def strip_prefix_def
          strip_suffix_def js_whitespace_def)
  have t: "trim ''```json {}'' = ''```json {}''" "trim ''{} ```'' = ''{} ```''"
    "trim '' {}'' = ''{}''" "trim ''{} '' = ''{}''"
    by (simp_all add: trim_def js_whitespace_def)
  have n: "\<forall>c. '' {}'' \<noteq> c @ ''```''"
    by (simp add: append_eq_Cons_conv)
  show ?thesis
    using parser_shapes
            [where ?ws1.0 = "''  ''" and ?ws2.0 = "''  ''" and x = "''{}''" and body = "''{}''"
               and both = "'' ```json{}``` ''" and inner = "''{}''"
               and lead = "''```json {}''" and rest = "'' {}''"
               and trail = "''{} ```''" and front = "''{} ''"
               and raw = "'' {} ''" and JSON_parse = "\<lambda>s. None" and s = "''oops''"
               and gen = "\<lambda>n. Text ''oops''"
               and ?ev1.0 = "[LogAttempt 1, GenerateContent, LogResponseReceived]"
               and out = "Some ''oops''" and ?ev2.0 = "[ErrJsonParse, LogRawOutput (Some ''oops'')]"
               and c = sample_course and rejects = "\<lambda>d l u. False" and db = sample_db]
          g t n
    by (simp add: js_whitespace_def trim_def)
qed

text \<open>
  C4 as the specification words it has every other parsed shape reported with the raw
  text, and every bare array wrapped.  The text \<^verbatim>\<open>1e2\<close> parses to the number 100, a
  value without modules: the script prints the parsed value, 100, and not the text.  The
  parsed value of \<^verbatim>\<open>[null]\<close> is a bare array: the script does not wrap it, it returns
  as after a parse failure.
\<close>

theorem wrong_shape_prints_parsed_value:
  "parse_phase (\<lambda>s. if s = ''1e2'' then Some (JNum 100) else None) (Some ''1e2'') =
     ([ErrNoModules (JNum 100)], None) \<and>
   parse_phase (\<lambda>s. if s = ''[null]'' then Some (JArr [JNull]) else None) (Some ''[null]'') =
     ([WarnFlatArray, ErrJsonParse, LogRawOutput (Some ''[null]'')], None)"
  by (simp add: parse_phase_def)

section \<open>The loops over the course tree\<close>

lemma filter_valid_no_update:
  "filter_valid t bs = (ev, r) \<Longrightarrow> LessonUpdate lid data \<notin> set ev"
proof (induction bs arbitrary: ev r)
  case Nil
  then show ?case by simp
next
  case (Cons b bs)
  obtain ev1 r1 where v: "validate_block t b = (ev1, r1)"
    by (cases "validate_block t b")
  then have e1: "LessonUpdate lid data \<notin> set ev1"
    by (auto simp: validate_block_def split: if_splits)
  obtain ev2 r2 where f: "filter_valid t bs = (ev2, r2)"
    by (cases "filter_valid t bs")
  from Cons.IH [OF f] have e2: "LessonUpdate lid data \<notin> set ev2" .
  from Cons.prems v f e1 e2 show ?case
    by (auto split: sum.splits)
qed

lemma process_lesson_empty:
  "filter_valid (lesson_title lesson) blocks = (ev, Inr []) \<Longrightarrow>
   process_lesson rejects lesson (JArr blocks) db =
     (ev @ [WarnNoValidBlocks (lesson_title lesson)], db, None)"
  by (simp add: process_lesson_def)

lemma run_positions_append:
  "run_positions rejects ec (ps @ qs) db =
     (case run_positions rejects ec ps db of
        (ev, db', Some e) \<Rightarrow> (ev, db', Some e)
      | (ev, db', None) \<Rightarrow>
          (case run_positions rejects ec qs db' of (ev', r) \<Rightarrow> (ev @ ev', r)))"
proof (induction ps arbitrary: db)
  case Nil
  then show ?case by (simp split: prod.splits)
next
  case (Cons p ps)
  obtain i j l where p: "p = (i, j, l)"
    by (cases p)
  show ?case
    by (simp add: p Cons.IH split: prod.splits option.splits)
qed

lemma lessons_loop_positions:
  "lessons_loop rejects (enrichedModule ec i) j ls db =
   run_positions rejects ec (map (\<lambda>(j', l). (i, j', l)) (enumerate j ls)) db"
  by (induction ls arbitrary: j db) (simp_all add: paired_content_def split: prod.splits option.splits)

lemma modules_loop_positions:
  "\<not> nullish ec \<Longrightarrow>
   modules_loop rejects ec i ms db =
   run_positions rejects ec
     (concat (map (\<lambda>(i', m). map (\<lambda>(j, l). (i', j, l)) (enumerate 0 (module_lessons m)))
                  (enumerate i ms))) db"
  by (induction ms arbitrary: i db)
     (simp_all add: lessons_loop_positions run_positions_append split: prod.splits option.splits)

lemma paired_content_present:
  assumes "property ec ''modules'' = JArr ams" "i < length ams" "truthy (ams ! i)"
    "property (ams ! i) ''lessons'' = JArr als" "j < length als" "truthy (als ! j)"
  shows "paired_content ec i j = or_else (property (als ! j) ''content'') (JArr [])"
  using assms
  by (simp add: paired_content_def enrichedModule_def enrichedLesson_def contentBlocks_def
        or_else_def)

lemma paired_content_no_module:
  assumes "property ec ''modules'' = JArr ams" "length ams \<le> i"
  shows "paired_content ec i j = JArr []"
  using assms
  by (simp add: paired_content_def enrichedModule_def enrichedLesson_def contentBlocks_def
        or_else_def)

lemma paired_content_no_lesson:
  assumes "property ec ''modules'' = JArr ams" "i < length ams"
    "property (ams ! i) ''lessons'' = JArr als \<and> length als \<le> j \<or>
     nullish (property (ams ! i) ''lessons'')"
  shows "paired_content ec i j = JArr []"
proof -
  have "\<not> truthy (opt_index (property (enrichedModule ec i) ''lessons'') j)"
  proof (cases "truthy (ams ! i)")
    case True
    then have "enrichedModule ec i = ams ! i"
      using assms by (simp add: enrichedModule_def or_else_def)
    with assms(3) show ?thesis
      by (cases "property (ams ! i) ''lessons''") auto
  next
    case False
    then have "enrichedModule ec i = JObj [(''lessons'', JArr [])]"
      using assms by (simp add: enrichedModule_def or_else_def)
    then show ?thesis by simp
  qed
  then show ?thesis
    by (simp add: paired_content_def enrichedLesson_def contentBlocks_def or_else_def)
qed

section \<open>Claims about the loops\<close>

text \<open>
  C8.  When the filter leaves no valid block for a lesson, the body of the loop issues
  no update: it returns the store it was given, prints the warning that the lesson is
  skipped after the warnings of the filter, and raises nothing, and the loop goes on
  with the next lesson on the same store.
\<close>

theorem no_valid_blocks_no_write:
  "filter_valid (lesson_title lesson) blocks = (ev, Inr []) \<longrightarrow>
     process_lesson rejects lesson (JArr blocks) db =
       (ev @ [WarnNoValidBlocks (lesson_title lesson)], db, None) \<and>
     (\<forall>lid data. LessonUpdate lid data \<notin> set (ev @ [WarnNoValidBlocks (lesson_title lesson)])) \<and>
     (contentBlocks (enrichedLesson em j) = JArr blocks \<longrightarrow>
        lessons_loop rejects em j (lesson # rest) db =
          (case lessons_loop rejects em (Suc j) rest db of
             (ev', r) \<Rightarrow> (ev @ [WarnNoValidBlocks (lesson_title lesson)] @ ev', r)))"
proof (intro impI conjI allI)
  assume fv: "filter_valid (lesson_title lesson) blocks = (ev, Inr [])"
  show p: "process_lesson rejects lesson (JArr blocks) db =
       (ev @ [WarnNoValidBlocks (lesson_title lesson)], db, None)"
    by (rule process_lesson_empty [OF fv])
  show "LessonUpdate lid data \<notin> set (ev @ [WarnNoValidBlocks (lesson_title lesson)])" for lid data
    using filter_valid_no_update [OF fv, of lid data] by simp
  assume "contentBlocks (enrichedLesson em j) = JArr blocks"
  with p show "lessons_loop rejects em j (lesson # rest) db =
          (case lessons_loop rejects em (Suc j) rest db of
             (ev', r) \<Rightarrow> (ev @ [WarnNoValidBlocks (lesson_title lesson)] @ ev', r))"
    by (simp split: prod.splits)
qed

theorem no_valid_blocks_no_write_witness:
  "process_lesson (\<lambda>d l u. False) \<lparr> lesson_id = ''l1'', lesson_title = ''L1'' \<rparr>
     (JArr [JNum 3]) sample_db =
     ([WarnInvalidType ''L1'' (JNum 3), WarnNoValidBlocks ''L1''], sample_db, None) \<and>
   lessons_loop (\<lambda>d l u. False) (JObj [(''lessons'', JArr [JObj [(''content'', JArr [JNum 3])]])]) 0
     [\<lparr> lesson_id = ''l1'', lesson_title = ''L1'' \<rparr>] sample_db =
     ([WarnInvalidType ''L1'' (JNum 3), WarnNoValidBlocks ''L1''], sample_db, None)"
proof -
  have fv: "filter_valid (lesson_title \<lparr> lesson_id = ''l1'', lesson_title = ''L1'' \<rparr>) [JNum 3] =
              ([WarnInvalidType ''L1'' (JNum 3)], Inr [])"
    by (simp add: validate_block_def block_types_def)
  have cb: "contentBlocks (enrichedLesson
              (JObj [(''lessons'', JArr [JObj [(''content'', JArr [JNum 3])]])]) 0) = JArr [JNum 3]"
    by (simp add: contentBlocks_def enrichedLesson_def or_else_def)
  show ?thesis
    using no_valid_blocks_no_write
            [of "\<lparr> lesson_id = ''l1'', lesson_title = ''L1'' \<rparr>" "[JNum 3]"
                "[WarnInvalidType ''L1'' (JNum 3)]" "\<lambda>d l u. False" sample_db
                "JObj [(''lessons'', JArr [JObj [(''content'', JArr [JNum 3])]])]" 0 "[]"]
          fv cb
    by simp
qed

text \<open>
  C3.  The loops process the lessons of the course tree in order, the lesson at
  position \<open>j\<close> of the module at position \<open>i\<close> with the content read at the same
  positions of the enriched content: the content of lesson \<open>j\<close> of module \<open>i\<close> of the
  answer where the answer has them.  Where the answer has no module at position \<open>i\<close>, or
  its module there has no lesson at position \<open>j\<close>, the content is the empty array; the
  body of the loop then raises nothing and returns the store it was given.
\<close>

theorem reconciliation_is_positional:
  "(\<not> nullish ec \<longrightarrow>
      modules_loop rejects ec 0 ms db = run_positions rejects ec (positions ms) db) \<and>
   (property ec ''modules'' = JArr ams \<and> i < length ams \<and> truthy (ams ! i) \<and>
    property (ams ! i) ''lessons'' = JArr als \<and> j < length als \<and> truthy (als ! j) \<longrightarrow>
      paired_content ec i j = or_else (property (als ! j) ''content'') (JArr [])) \<and>
   (property ec ''modules'' = JArr ams \<and> length ams \<le> i \<longrightarrow> paired_content ec i j = JArr []) \<and>
   (property ec ''modules'' = JArr ams \<and> i < length ams \<and>
    (property (ams ! i) ''lessons'' = JArr als \<and> length als \<le> j \<or>
     nullish (property (ams ! i) ''lessons'')) \<longrightarrow>
      paired_content ec i j = JArr []) \<and>
   process_lesson rejects lesson (JArr []) db =
     ([WarnNoValidBlocks (lesson_title lesson)], db, None)"
proof (intro conjI impI)
  assume "\<not> nullish ec"
  then show "modules_loop rejects ec 0 ms db = run_positions rejects ec (positions ms) db"
    by (simp add: modules_loop_positions positions_def)
next
  show "process_lesson rejects lesson (JArr []) db =
     ([WarnNoValidBlocks (lesson_title lesson)], db, None)"
    by (simp add: process_lesson_def)
next
  assume "property ec ''modules'' = JArr ams \<and> i < length ams \<and>
    (property (ams ! i) ''lessons'' = JArr als \<and> length als \<le> j \<or>
     nullish (property (ams ! i) ''lessons''))"
  then show "paired_content ec i j = JArr []"
    using paired_content_no_lesson [of ec ams i als j] by blast
qed (simp_all add: paired_content_present paired_content_no_module)

theorem reconciliation_is_positional_witness:
  "modules_loop (\<lambda>d l u. False) sample_answer 0 (course_modules sample_course) sample_db =
     run_positions (\<lambda>d l u. False) sample_answer
       [(0, 0, \<lparr> lesson_id = ''l1'', lesson_title = ''L1'' \<rparr>),
        (0, 1, \<lparr> lesson_id = ''l2'', lesson_title = ''L2'' \<rparr>)] sample_db \<and>
   paired_content sample_answer 0 0 = JArr [par_block] \<and>
   paired_content sample_answer 1 0 = JArr [] \<and>
   paired_content sample_answer 0 1 = JArr [] \<and>
   process_lesson (\<lambda>d l u. False) \<lparr> lesson_id = ''l2'', lesson_title = ''L2'' \<rparr> (JArr [])
     sample_db = ([WarnNoValidBlocks ''L2''], sample_db, None)"
proof -
  let ?m = "JObj [(''lessons'', JArr [JObj [(''content'', JArr [par_block])]])]"
  let ?l = "JObj [(''content'', JArr [par_block])]"
  let ?l2 = "\<lparr> lesson_id = ''l2'', lesson_title = ''L2'' \<rparr>"
  have p: "positions (course_modules sample_course) =
             [(0, 0, \<lparr> lesson_id = ''l1'', lesson_title = ''L1'' \<rparr>), (0, 1, ?l2)]"
    by (simp add: positions_def sample_course_def)
  have m: "property sample_answer ''modules'' = JArr [?m]"
    by (simp add: sample_answer_def)
  show ?thesis
    using reconciliation_is_positional
            [of sample_answer "\<lambda>d l u. False" "course_modules sample_course" sample_db
                "[?m]" 0 "[?l]" 0 ?l2]
          reconciliation_is_positional
            [of sample_answer "\<lambda>d l u. False" "course_modules sample_course" sample_db
                "[?m]" 1 "[?l]" 0 ?l2]
          reconciliation_is_positional
            [of sample_answer "\<lambda>d l u. False" "course_modules sample_course" sample_db
                "[?m]" 0 "[?l]" 1 ?l2]
          p m
    by (simp add: sample_answer_def or_else_def)
qed

section \<open>The store after an update\<close>

lemma insert_blocks_length: "length (fst (insert_blocks lid n cs)) = length cs"
  by (induction cs arbitrary: n) (simp_all add: case_prod_beta split: option.splits)

lemma insert_blocks_next: "n \<le> snd (snd (insert_blocks lid n cs))"
proof (induction cs arbitrary: n)
  case Nil
  then show ?case by simp
next
  case (Cons c cs)
  show ?case
    using Cons [of "n + 1"] Cons [of "n + 2"]
    by (simp add: case_prod_beta split: option.splits)
qed

lemma insert_blocks_lesson:
  "r \<in> set (fst (insert_blocks lid n cs)) \<Longrightarrow> cb_lessonId r = lid"
  by (induction cs arbitrary: n) (auto simp: case_prod_beta split: option.splits)

lemma insert_blocks_option_ids:
  "m \<in> set (fst (snd (insert_blocks lid n cs))) \<Longrightarrow>
   n \<le> mo_id m \<and> mo_id m < snd (snd (insert_blocks lid n cs))"
proof (induction cs arbitrary: n)
  case Nil
  then show ?case by simp
next
  case (Cons c cs)
  show ?case
  proof (cases "bc_mcq c")
    case None
    with Cons.prems have "m \<in> set (fst (snd (insert_blocks lid (n + 1) cs)))"
      by (simp add: case_prod_beta)
    from Cons.IH [OF this] None show ?thesis
      by (simp add: case_prod_beta)
  next
    case (Some x)
    with Cons.prems
    have "mo_id m = n \<or> m \<in> set (fst (snd (insert_blocks lid (n + 2) cs)))"
      by (auto simp: case_prod_beta)
    then show ?thesis
    proof
      assume "mo_id m = n"
      with Some insert_blocks_next [of "n + 2" lid cs] show ?thesis
        by (simp add: case_prod_beta)
    next
      assume "m \<in> set (fst (snd (insert_blocks lid (n + 2) cs)))"
      from Cons.IH [OF this] Some show ?thesis
        by (simp add: case_prod_beta)
    qed
  qed
qed

lemma insert_blocks_refs:
  "r \<in> set (fst (insert_blocks lid n cs)) \<Longrightarrow> cb_mcqId r = Some k \<Longrightarrow>
   n \<le> k \<and> k < snd (snd (insert_blocks lid n cs))"
proof (induction cs arbitrary: n)
  case Nil
  then show ?case by simp
next
  case (Cons c cs)
  show ?case
  proof (cases "bc_mcq c")
    case None
    with Cons.prems have "r \<in> set (fst (insert_blocks lid (n + 1) cs))"
      by (auto simp: case_prod_beta)
    from Cons.IH [OF this Cons.prems(2)] None show ?thesis
      by (simp add: case_prod_beta)
  next
    case (Some x)
    with Cons.prems
    have "k = n \<or> r \<in> set (fst (insert_blocks lid (n + 2) cs))"
      by (auto simp: case_prod_beta)
    then show ?thesis
    proof
      assume "k = n"
      with Some insert_blocks_next [of "n + 2" lid cs] show ?thesis
        by (simp add: case_prod_beta)
    next
      assume "r \<in> set (fst (insert_blocks lid (n + 2) cs))"
      from Cons.IH [OF this Cons.prems(2)] Some show ?thesis
        by (simp add: case_prod_beta)
    qed
  qed
qed

lemma filter_none: "(\<And>x. x \<in> set xs \<Longrightarrow> \<not> P x) \<Longrightarrow> filter P xs = []"
  by (induction xs) auto

lemma insert_blocks_links:
  "map (new_options_of (fst (snd (insert_blocks lid n cs)))) (fst (insert_blocks lid n cs)) =
   map create_options cs"
proof (induction cs arbitrary: n)
  case Nil
  then show ?case by simp
next
  case (Cons c cs)
  show ?case
  proof (cases "bc_mcq c")
    case None
    then show ?thesis
      using Cons.IH [of "n + 1"]
      by (simp add: case_prod_beta new_options_of_def create_options_def)
  next
    case (Some x)
    let ?bs = "fst (insert_blocks lid (n + 2) cs)"
    let ?ms = "fst (snd (insert_blocks lid (n + 2) cs))"
    let ?o = "\<lparr> mo_id = n, mo_question = mc_question x, mo_options = mc_options x,
                 mo_answer = mc_answer x, mo_explanation = mc_explanation x \<rparr>"
    have none: "filter (\<lambda>m. mo_id m = n) ?ms = []"
      by (rule filter_none) (use insert_blocks_option_ids [of _ lid "n + 2" cs] in fastforce)
    have rest: "map (new_options_of (?o # ?ms)) ?bs = map (new_options_of ?ms) ?bs"
    proof (rule map_cong [OF refl])
      fix r
      assume r: "r \<in> set ?bs"
      show "new_options_of (?o # ?ms) r = new_options_of ?ms r"
      proof (cases "cb_mcqId r")
        case None
        then show ?thesis by (simp add: new_options_of_def)
      next
        case (Some k)
        from insert_blocks_refs [OF r Some] have "k \<noteq> n" by simp
        with Some show ?thesis by (simp add: new_options_of_def)
      qed
    qed
    let ?r = "\<lparr> cb_id = n + 1, cb_order = bc_order c, cb_type = bc_type c, cb_text = bc_text c,
                 cb_language = bc_language c, cb_videoUrl = bc_videoUrl c,
                 cb_lessonId = lid, cb_mcqId = Some n \<rparr>"
    have rows: "fst (insert_blocks lid n (c # cs)) = ?r # ?bs"
      "fst (snd (insert_blocks lid n (c # cs))) = ?o # ?ms"
      using Some by (simp_all add: case_prod_beta)
    have head: "new_options_of (?o # ?ms) ?r = [x]"
      using none by (simp add: new_options_of_def option_data_def)
    have "map (new_options_of (?o # ?ms)) (?r # ?bs) =
          new_options_of (?o # ?ms) ?r # map (new_options_of (?o # ?ms)) ?bs"
      by (rule list.map(2))
    also have "\<dots> = [x] # map (new_options_of ?ms) ?bs"
      by (simp only: head rest)
    also have "\<dots> = [x] # map create_options cs"
      by (simp only: Cons.IH)
    finally have "map (new_options_of (?o # ?ms)) (?r # ?bs) = [x] # map create_options cs" .
    then show ?thesis
      using Some by (simp only: rows) (simp add: create_options_def)
  qed
qed

lemma insert_videos_rows:
  "map vs_query (fst (insert_videos lid n qs)) = qs \<and>
   (\<forall>v\<in>set (fst (insert_videos lid n qs)). vs_lessonId v = lid) \<and>
   n \<le> snd (insert_videos lid n qs)"
proof (induction qs arbitrary: n)
  case Nil
  then show ?case by simp
next
  case (Cons q qs)
  show ?case
    using Cons [of "n + 1"] by (simp add: case_prod_beta)
qed

lemma filter_replace:
  assumes "\<forall>x\<in>set new. key x = k"
  shows "filter (\<lambda>x. key x = k) (filter (\<lambda>x. key x \<noteq> k) old @ new) = new"
    and "k' \<noteq> k \<Longrightarrow>
         filter (\<lambda>x. key x = k') (filter (\<lambda>x. key x \<noteq> k) old @ new) =
         filter (\<lambda>x. key x = k') old"
proof -
  have a: "filter (\<lambda>x. key x = k) new = new"
    using assms by (simp add: filter_id_conv)
  have b: "filter (\<lambda>x. key x = k) (filter (\<lambda>x. key x \<noteq> k) old) = []"
    by (rule filter_none) simp
  show "filter (\<lambda>x. key x = k) (filter (\<lambda>x. key x \<noteq> k) old @ new) = new"
    by (simp add: a b)
  assume ne: "k' \<noteq> k"
  have c: "filter (\<lambda>x. key x = k') new = []"
    by (rule filter_none) (use assms ne in auto)
  have d: "filter (\<lambda>x. key x = k') (filter (\<lambda>x. key x \<noteq> k) old) = filter (\<lambda>x. key x = k') old"
    unfolding filter_filter by (rule filter_cong) (use ne in auto)
  show "filter (\<lambda>x. key x = k') (filter (\<lambda>x. key x \<noteq> k) old @ new) =
         filter (\<lambda>x. key x = k') old"
    by (simp only: filter_append c d append_Nil2)
qed

text \<open>The parts of the store after an update that deletes and creates.\<close>

lemma prisma_lesson_update_parts:
  assumes u: "prisma_lesson_update db lid data = Some db'"
    and del: "ud_blocks_deleteMany data" "ud_videos_deleteMany data"
  shows "lessonTable db' lid =
           map_option (\<lambda>row. row\<lparr> lr_objectives := ud_objectives data,
                                  lr_isEnriched := ud_isEnriched data \<rparr>) (lessonTable db lid)"
    and "lesson_blocks db' lid = fst (insert_blocks lid (nextId db) (ud_blocks_create data))"
    and "map vs_query (lesson_videos db' lid) = ud_videos_create data"
    and "mcqOptionTable db' =
           mcqOptionTable db @ fst (snd (insert_blocks lid (nextId db) (ud_blocks_create data)))"
    and "lid' \<noteq> lid \<Longrightarrow> lessonTable db' lid' = lessonTable db lid'"
    and "lid' \<noteq> lid \<Longrightarrow> lesson_blocks db' lid' = lesson_blocks db lid'"
    and "lid' \<noteq> lid \<Longrightarrow> lesson_videos db' lid' = lesson_videos db lid'"
    and "nextId db \<le> nextId db'"
    and "snd (snd (insert_blocks lid (nextId db) (ud_blocks_create data))) \<le> nextId db'"
proof -
  let ?ib = "insert_blocks lid (nextId db) (ud_blocks_create data)"
  let ?iv = "insert_videos lid (snd (snd ?ib)) (ud_videos_create data)"
  from u obtain row where row: "lessonTable db lid = Some row"
    by (auto simp: prisma_lesson_update_def split: option.splits)
  from u row del have db':
    "db' = \<lparr> lessonTable = (lessonTable db)(lid \<mapsto>
                row\<lparr> lr_objectives := ud_objectives data, lr_isEnriched := ud_isEnriched data \<rparr>),
             contentBlockTable = filter (\<lambda>r. cb_lessonId r \<noteq> lid) (contentBlockTable db) @ fst ?ib,
             mcqOptionTable = mcqOptionTable db @ fst (snd ?ib),
             videoSearchTable = filter (\<lambda>r. vs_lessonId r \<noteq> lid) (videoSearchTable db) @ fst ?iv,
             nextId = snd ?iv \<rparr>"
    by (simp add: prisma_lesson_update_def case_prod_beta)
  have bl: "\<forall>r\<in>set (fst ?ib). cb_lessonId r = lid"
    using insert_blocks_lesson by blast
  have vl: "\<forall>v\<in>set (fst ?iv). vs_lessonId v = lid"
    using insert_videos_rows by blast
  show "lessonTable db' lid =
           map_option (\<lambda>row. row\<lparr> lr_objectives := ud_objectives data,
                                  lr_isEnriched := ud_isEnriched data \<rparr>) (lessonTable db lid)"
    by (simp add: db' row)
  show "lesson_blocks db' lid = fst ?ib"
    using filter_replace(1) [OF bl] by (simp add: db' lesson_blocks_def)
  have "lesson_videos db' lid = fst ?iv"
    using filter_replace(1) [OF vl] by (simp add: db' lesson_videos_def)
  then show "map vs_query (lesson_videos db' lid) = ud_videos_create data"
    by (simp add: insert_videos_rows)
  show "mcqOptionTable db' = mcqOptionTable db @ fst (snd ?ib)"
    by (simp add: db')
  show "lid' \<noteq> lid \<Longrightarrow> lessonTable db' lid' = lessonTable db lid'"
    by (simp add: db')
  show "lid' \<noteq> lid \<Longrightarrow> lesson_blocks db' lid' = lesson_blocks db lid'"
    using filter_replace(2) [OF bl] by (simp add: db' lesson_blocks_def)
  show "lid' \<noteq> lid \<Longrightarrow> lesson_videos db' lid' = lesson_videos db lid'"
    using filter_replace(2) [OF vl] by (simp add: db' lesson_videos_def)
  have n2: "snd (snd ?ib) \<le> snd ?iv"
    using insert_videos_rows by blast
  then show "snd (snd ?ib) \<le> nextId db'"
    by (simp add: db')
  from n2 insert_blocks_next [of "nextId db" lid "ud_blocks_create data"]
  show "nextId db \<le> nextId db'"
    by (simp add: db')
qed

lemma fresh_ids_kept:
  assumes u: "prisma_lesson_update db lid data = Some db'"
    and del: "ud_blocks_deleteMany data" "ud_videos_deleteMany data"
    and fresh: "fresh_ids db"
  shows "fresh_ids db'"
proof -
  note p = prisma_lesson_update_parts [OF u del]
  have "\<forall>m\<in>set (mcqOptionTable db'). mo_id m < nextId db'"
  proof
    fix m
    assume "m \<in> set (mcqOptionTable db')"
    then consider "m \<in> set (mcqOptionTable db)"
      | "m \<in> set (fst (snd (insert_blocks lid (nextId db) (ud_blocks_create data))))"
      by (auto simp: p(4))
    then show "mo_id m < nextId db'"
    proof cases
      case 1
      with fresh have "mo_id m < nextId db"
        by (simp add: fresh_ids_def list_all_iff)
      with p(8) show ?thesis by simp
    next
      case 2
      from insert_blocks_option_ids [OF 2] p(9) show ?thesis by simp
    qed
  qed
  then show ?thesis
    by (simp add: fresh_ids_def list_all_iff)
qed

lemma new_blocks_options:
  assumes u: "prisma_lesson_update db lid data = Some db'"
    and del: "ud_blocks_deleteMany data" "ud_videos_deleteMany data"
    and fresh: "fresh_ids db"
  shows "map (\<lambda>r. map option_data (mcq_of db' r)) (lesson_blocks db' lid) =
         map create_options (ud_blocks_create data)"
proof -
  note p = prisma_lesson_update_parts [OF u del]
  let ?ib = "insert_blocks lid (nextId db) (ud_blocks_create data)"
  have "map (\<lambda>r. map option_data (mcq_of db' r)) (fst ?ib) =
        map (new_options_of (fst (snd ?ib))) (fst ?ib)"
  proof (rule map_cong [OF refl])
    fix r
    assume r: "r \<in> set (fst ?ib)"
    show "map option_data (mcq_of db' r) = new_options_of (fst (snd ?ib)) r"
    proof (cases "cb_mcqId r")
      case None
      then show ?thesis by (simp add: mcq_of_def new_options_of_def)
    next
      case (Some k)
      from insert_blocks_refs [OF r Some] have k: "nextId db \<le> k" by simp
      have "filter (\<lambda>m. mo_id m = k) (mcqOptionTable db) = []"
        by (rule filter_none) (use fresh k in \<open>auto simp: fresh_ids_def list_all_iff\<close>)
      with Some show ?thesis
        by (simp add: mcq_of_def new_options_of_def p(4))
    qed
  qed
  then show ?thesis
    by (simp add: p(2) insert_blocks_links)
qed

lemma lesson_data_update_of:
  "\<forall>b\<in>set vs. block_kept b \<Longrightarrow> lesson_data vs = Inr (update_of vs)"
  by (simp add: lesson_data_kept update_of_def)

lemma process_lesson_valid:
  assumes fv: "filter_valid (lesson_title lesson) blocks = (ev, Inr vbs)" and ne: "vbs \<noteq> []"
  shows "process_lesson rejects lesson (JArr blocks) db =
     (case lesson_update rejects db (lesson_id lesson) (update_of vbs) of
        None \<Rightarrow> (ev @ [LessonUpdate (lesson_id lesson) (update_of vbs)], db, Some PrismaError)
      | Some db' \<Rightarrow>
          (ev @ [LessonUpdate (lesson_id lesson) (update_of vbs),
                 LogUpdated (lesson_title lesson)], db', None))"
  using fv ne lesson_data_update_of [OF filter_valid_result(3) [OF fv]]
  by (simp add: process_lesson_def)

lemma process_lesson_written:
  assumes p: "process_lesson rejects lesson cbs db = (ev, db', None)"
    and w: "LessonUpdate lid data \<in> set ev"
  shows "\<exists>blocks ev0 vbs.
           cbs = JArr blocks \<and> filter_valid (lesson_title lesson) blocks = (ev0, Inr vbs) \<and>
           vbs \<noteq> [] \<and> data = update_of vbs \<and> lid = lesson_id lesson \<and>
           prisma_lesson_update db lid data = Some db'"
proof -
  from p obtain blocks where cbs: "cbs = JArr blocks"
    by (cases cbs) (simp_all add: process_lesson_def)
  obtain ev0 r where fv: "filter_valid (lesson_title lesson) blocks = (ev0, r)"
    by (cases "filter_valid (lesson_title lesson) blocks")
  from p cbs fv obtain vbs where r: "r = Inr vbs"
    by (cases r) (simp_all add: process_lesson_def)
  note no = filter_valid_no_update [OF fv, of lid data]
  have ne: "vbs \<noteq> []"
  proof
    assume "vbs = []"
    with p cbs fv r have "ev = ev0 @ [WarnNoValidBlocks (lesson_title lesson)]"
      by (simp add: process_lesson_def)
    with w no show False by simp
  qed
  from p have pv: "(case lesson_update rejects db (lesson_id lesson) (update_of vbs) of
        None \<Rightarrow> (ev0 @ [LessonUpdate (lesson_id lesson) (update_of vbs)], db, Some PrismaError)
      | Some db' \<Rightarrow>
          (ev0 @ [LessonUpdate (lesson_id lesson) (update_of vbs),
                  LogUpdated (lesson_title lesson)], db', None)) = (ev, db', None)"
    using process_lesson_valid [OF fv [unfolded r] ne, of rejects db] cbs by simp
  then obtain d where d: "lesson_update rejects db (lesson_id lesson) (update_of vbs) = Some d"
    by (cases "lesson_update rejects db (lesson_id lesson) (update_of vbs)") simp_all
  with pv have e: "ev = ev0 @ [LessonUpdate (lesson_id lesson) (update_of vbs),
                  LogUpdated (lesson_title lesson)]" and dd: "d = db'"
    by simp_all
  from w e no have "lid = lesson_id lesson" "data = update_of vbs"
    by auto
  moreover from d dd have "prisma_lesson_update db (lesson_id lesson) (update_of vbs) = Some db'"
    by (simp add: lesson_update_def split: if_splits)
  ultimately show ?thesis
    using cbs fv r ne by auto
qed

lemma process_lesson_again:
  assumes fv: "filter_valid (lesson_title lesson) blocks = (ev0, Inr vbs)" and ne: "vbs \<noteq> []"
    and p: "process_lesson rejects lesson (JArr blocks) db = (ev, db', None)"
  shows "prisma_lesson_update db (lesson_id lesson) (update_of vbs) = Some db'"
  using p process_lesson_valid [OF fv ne, of rejects db]
  by (auto simp: lesson_update_def split: option.splits if_splits)

lemma map_pair: "map (\<lambda>x. (f x, g x)) xs = zip (map f xs) (map g xs)"
  by (induction xs) simp_all

lemma created_orders: "map (bc_order \<circ> (\<lambda>(k, b). created_block k b)) (enumerate i vs) = [i..<i + length vs]"
  by (induction vs arbitrary: i) (simp_all add: created_block_def upt_rec)

lemma insert_blocks_fields:
  "map block_fields (fst (insert_blocks lid n cs)) = map create_fields cs"
  by (induction cs arbitrary: n)
     (simp_all add: case_prod_beta block_fields_def create_fields_def split: option.splits)

text \<open>The content of a lesson after an update is a function of the data alone.\<close>

lemma lesson_content_after:
  assumes u: "prisma_lesson_update db lid (update_of vbs) = Some db'" and fresh: "fresh_ids db"
  shows "lesson_content db' lid =
           (map_option enriched (lessonTable db lid),
            zip (map create_fields (ud_blocks_create (update_of vbs)))
                (map create_options (ud_blocks_create (update_of vbs))),
            ud_videos_create (update_of vbs))"
proof -
  have del: "ud_blocks_deleteMany (update_of vbs)" "ud_videos_deleteMany (update_of vbs)"
    by (simp_all add: update_of_def)
  note p = prisma_lesson_update_parts [OF u del]
  have a: "lessonTable db' lid = map_option enriched (lessonTable db lid)"
    by (simp add: p(1)) (simp add: update_of_def enriched_def [abs_def])
  have b: "map block_fields (lesson_blocks db' lid) =
           map create_fields (ud_blocks_create (update_of vbs))"
    by (simp only: p(2) insert_blocks_fields)
  have c: "map (\<lambda>r. map option_data (mcq_of db' r)) (lesson_blocks db' lid) =
           map create_options (ud_blocks_create (update_of vbs))"
    by (rule new_blocks_options [OF u del fresh])
  show ?thesis
    unfolding lesson_content_def map_pair a b c p(3) ..
qed

lemma created_nth:
  "k < length vs \<Longrightarrow>
   map (\<lambda>(k, b). created_block k b) (enumerate 0 vs) ! k = created_block k (vs ! k)"
  by (simp add: nth_enumerate_eq)

lemma written_row:
  assumes u: "prisma_lesson_update db lid (update_of vbs) = Some db'" and fresh: "fresh_ids db"
    and k: "k < length vbs"
  shows "k < length (lesson_blocks db' lid)"
    and "block_fields (lesson_blocks db' lid ! k) = create_fields (created_block k (vbs ! k))"
    and "map option_data (mcq_of db' (lesson_blocks db' lid ! k)) =
         create_options (created_block k (vbs ! k))"
proof -
  have del: "ud_blocks_deleteMany (update_of vbs)" "ud_videos_deleteMany (update_of vbs)"
    by (simp_all add: update_of_def)
  note p = prisma_lesson_update_parts [OF u del]
  have cr: "ud_blocks_create (update_of vbs) =
            map (\<lambda>(k, b). created_block k b) (enumerate 0 vbs)"
    by (simp add: update_of_def)
  have len: "length (lesson_blocks db' lid) = length vbs"
    by (simp add: p(2) insert_blocks_length cr)
  with k show kl: "k < length (lesson_blocks db' lid)"
    by simp
  have "map block_fields (lesson_blocks db' lid) ! k =
        map create_fields (ud_blocks_create (update_of vbs)) ! k"
    by (simp only: p(2) insert_blocks_fields)
  with k kl show "block_fields (lesson_blocks db' lid ! k) =
                  create_fields (created_block k (vbs ! k))"
    by (simp add: cr nth_enumerate_eq)
  have "map (\<lambda>r. map option_data (mcq_of db' r)) (lesson_blocks db' lid) ! k =
        map create_options (ud_blocks_create (update_of vbs)) ! k"
    by (simp only: new_blocks_options [OF u del fresh])
  with k kl show "map option_data (mcq_of db' (lesson_blocks db' lid ! k)) =
                  create_options (created_block k (vbs ! k))"
    by (simp add: cr nth_enumerate_eq)
qed

lemma kept_row_options:
  assumes kept: "block_kept b"
    and f: "block_fields r = create_fields (created_block k b)"
    and o: "map option_data (mcq_of db' r) = create_options (created_block k b)"
  shows "if cb_type r = ''MCQ''
         then \<exists>m. mcq_of db' r = [m] \<and> truthy (mo_question m) \<and> isArray (mo_options m) \<and>
                  \<not> nullish (mo_answer m) \<and> truthy (mo_explanation m)
         else mcq_of db' r = []"
proof -
  from block_kept_type [OF kept]
  have ty: "property b ''type'' = JStr (type_of_block b)"
    and tys: "type_of_block b \<in> {''paragraph'', ''video'', ''mcq''}"
    by simp_all
  from f have t: "cb_type r = toUpperCase (type_of_block b)"
    by (simp add: block_fields_def create_fields_def created_block_def)
  show ?thesis
  proof (cases "type_of_block b = ''mcq''")
    case True
    with o obtain m where m: "mcq_of db' r = [m]"
      and d: "option_data m =
                \<lparr> mc_question = property b ''question'', mc_options = property b ''options'',
                  mc_answer = property b ''answer'', mc_explanation = property b ''explanation'' \<rparr>"
      by (auto simp: create_options_def created_block_def map_eq_Cons_conv)
    from d have "mo_question m = property b ''question''" "mo_options m = property b ''options''"
      "mo_answer m = property b ''answer''" "mo_explanation m = property b ''explanation''"
      by (simp_all add: option_data_def)
    moreover from kept ty True
    have "truthy (property b ''question'')" "isArray (property b ''options'')"
      "\<not> nullish (property b ''answer'')" "truthy (property b ''explanation'')"
      by (simp_all add: block_kept_def)
    ultimately show ?thesis
      using m t True by (simp add: toUpperCase_words)
  next
    case False
    with tys t have "cb_type r \<noteq> ''MCQ''"
      by (auto simp: toUpperCase_words)
    moreover from o False have "mcq_of db' r = []"
      by (simp add: create_options_def created_block_def)
    ultimately show ?thesis by simp
  qed
qed

section \<open>Claims about the write\<close>

text \<open>
  C1.  When the filter leaves at least one valid block for a lesson, the body of the
  loop builds the data \<open>update_of\<close> of the valid blocks and issues one update of the
  lesson with them: \<^verbatim>\<open>isEnriched\<close> true, \<^verbatim>\<open>objectives\<close> empty, both child relations
  cleared and created anew, one content block per valid block with \<^verbatim>\<open>order\<close> equal to
  its index and an option exactly for the \<^verbatim>\<open>mcq\<close> blocks, one video search per
  \<^verbatim>\<open>video\<close> block with that block's text as query.  If the store throws, the body
  ends with the exception and the store as it was.  Otherwise the lesson row is the old
  one with the two columns set, the lesson's content blocks are exactly the inserted rows, with the
  fields and orders of the data, its video searches have the queries of the data, and
  (the ids being fresh) each block references the options created with it.
\<close>

theorem lesson_write_replaces_content:
  "filter_valid (lesson_title lesson) blocks = (ev, Inr validBlocks) \<and> validBlocks \<noteq> [] \<longrightarrow>
     lesson_data validBlocks = Inr (update_of validBlocks) \<and>
     map bc_order (ud_blocks_create (update_of validBlocks)) = [0..<length validBlocks] \<and>
     map (\<lambda>c. bc_mcq c \<noteq> None) (ud_blocks_create (update_of validBlocks)) =
       map (\<lambda>b. type_of_block b = ''mcq'') validBlocks \<and>
     (\<forall>l d. LessonUpdate l d \<notin> set ev) \<and>
     (case lesson_update rejects db (lesson_id lesson) (update_of validBlocks) of
        None \<Rightarrow>
          process_lesson rejects lesson (JArr blocks) db =
            (ev @ [LessonUpdate (lesson_id lesson) (update_of validBlocks)], db, Some PrismaError)
      | Some db' \<Rightarrow>
          process_lesson rejects lesson (JArr blocks) db =
            (ev @ [LessonUpdate (lesson_id lesson) (update_of validBlocks),
                   LogUpdated (lesson_title lesson)], db', None) \<and>
          lessonTable db' (lesson_id lesson) =
            map_option enriched (lessonTable db (lesson_id lesson)) \<and>
          lessonTable db (lesson_id lesson) \<noteq> None \<and>
          lesson_blocks db' (lesson_id lesson) =
            fst (insert_blocks (lesson_id lesson) (nextId db)
                   (ud_blocks_create (update_of validBlocks))) \<and>
          map block_fields (lesson_blocks db' (lesson_id lesson)) =
            map create_fields (ud_blocks_create (update_of validBlocks)) \<and>
          map cb_order (lesson_blocks db' (lesson_id lesson)) = [0..<length validBlocks] \<and>
          map vs_query (lesson_videos db' (lesson_id lesson)) =
            map (\<lambda>b. property b ''text'')
                (filter (\<lambda>b. type_of_block b = ''video'') validBlocks) \<and>
          (fresh_ids db \<longrightarrow>
             map (\<lambda>r. map option_data (mcq_of db' r)) (lesson_blocks db' (lesson_id lesson)) =
               map create_options (ud_blocks_create (update_of validBlocks))))"
proof (intro impI)
  let ?lid = "lesson_id lesson"
  let ?data = "update_of validBlocks"
  assume h: "filter_valid (lesson_title lesson) blocks = (ev, Inr validBlocks) \<and> validBlocks \<noteq> []"
  then have fv: "filter_valid (lesson_title lesson) blocks = (ev, Inr validBlocks)"
    and ne: "validBlocks \<noteq> []"
    by simp_all
  have kept: "\<forall>b\<in>set validBlocks. block_kept b"
    by (rule filter_valid_result(3) [OF fv])
  have c1: "lesson_data validBlocks = Inr ?data"
    by (rule lesson_data_update_of [OF kept])
  have ord: "map bc_order (ud_blocks_create ?data) = [0..<length validBlocks]"
    using created_orders [of 0 validBlocks] by (simp add: update_of_def)
  have c3: "map (\<lambda>c. bc_mcq c \<noteq> None) (ud_blocks_create ?data) =
            map (\<lambda>b. type_of_block b = ''mcq'') validBlocks"
  proof -
    have "map ((\<lambda>c. bc_mcq c \<noteq> None) \<circ> (\<lambda>(k, b). created_block k b)) (enumerate i vs) =
          map (\<lambda>b. type_of_block b = ''mcq'') vs" for i vs
      by (induction vs arbitrary: i) (simp_all add: created_block_def)
    then show ?thesis by (simp add: update_of_def)
  qed
  have c4: "\<forall>l d. LessonUpdate l d \<notin> set ev"
    using filter_valid_no_update [OF fv] by blast
  have del: "ud_blocks_deleteMany ?data" "ud_videos_deleteMany ?data"
    by (simp_all add: update_of_def)
  have c5: "case lesson_update rejects db ?lid ?data of
        None \<Rightarrow>
          process_lesson rejects lesson (JArr blocks) db =
            (ev @ [LessonUpdate ?lid ?data], db, Some PrismaError)
      | Some db' \<Rightarrow>
          process_lesson rejects lesson (JArr blocks) db =
            (ev @ [LessonUpdate ?lid ?data, LogUpdated (lesson_title lesson)], db', None) \<and>
          lessonTable db' ?lid = map_option enriched (lessonTable db ?lid) \<and>
          lessonTable db ?lid \<noteq> None \<and>
          lesson_blocks db' ?lid = fst (insert_blocks ?lid (nextId db) (ud_blocks_create ?data)) \<and>
          map block_fields (lesson_blocks db' ?lid) = map create_fields (ud_blocks_create ?data) \<and>
          map cb_order (lesson_blocks db' ?lid) = [0..<length validBlocks] \<and>
          map vs_query (lesson_videos db' ?lid) =
            map (\<lambda>b. property b ''text'')
                (filter (\<lambda>b. type_of_block b = ''video'') validBlocks) \<and>
          (fresh_ids db \<longrightarrow>
             map (\<lambda>r. map option_data (mcq_of db' r)) (lesson_blocks db' ?lid) =
               map create_options (ud_blocks_create ?data))"
  proof (cases "lesson_update rejects db ?lid ?data")
    case None
    then show ?thesis
      by (simp add: process_lesson_valid [OF fv ne])
  next
    case (Some db')
    then have u: "prisma_lesson_update db ?lid ?data = Some db'"
      by (simp add: lesson_update_def split: if_splits)
    note p = prisma_lesson_update_parts [OF u del]
    have f: "map block_fields (lesson_blocks db' ?lid) = map create_fields (ud_blocks_create ?data)"
      by (simp only: p(2) insert_blocks_fields)
    have "map (fst \<circ> block_fields) (lesson_blocks db' ?lid) =
          map (fst \<circ> create_fields) (ud_blocks_create ?data)"
      using f by (simp only: map_map [symmetric])
    then have o: "map cb_order (lesson_blocks db' ?lid) = [0..<length validBlocks]"
      using ord by (simp add: comp_def block_fields_def create_fields_def)
    have l: "lessonTable db' ?lid = map_option enriched (lessonTable db ?lid)"
      by (simp add: p(1)) (simp add: update_of_def enriched_def [abs_def])
    have l': "lessonTable db ?lid \<noteq> None"
      using u by (auto simp: prisma_lesson_update_def split: option.splits)
    have v: "map vs_query (lesson_videos db' ?lid) =
            map (\<lambda>b. property b ''text'')
                (filter (\<lambda>b. type_of_block b = ''video'') validBlocks)"
      by (simp add: p(3)) (simp add: update_of_def)
    show ?thesis
      using Some f o l l' v p(2) new_blocks_options [OF u del]
      by (simp add: process_lesson_valid [OF fv ne])
  qed
  from c1 ord c3 c4 c5 show
    "lesson_data validBlocks = Inr ?data \<and>
     map bc_order (ud_blocks_create ?data) = [0..<length validBlocks] \<and>
     map (\<lambda>c. bc_mcq c \<noteq> None) (ud_blocks_create ?data) =
       map (\<lambda>b. type_of_block b = ''mcq'') validBlocks \<and>
     (\<forall>l d. LessonUpdate l d \<notin> set ev) \<and>
     (case lesson_update rejects db ?lid ?data of
        None \<Rightarrow>
          process_lesson rejects lesson (JArr blocks) db =
            (ev @ [LessonUpdate ?lid ?data], db, Some PrismaError)
      | Some db' \<Rightarrow>
          process_lesson rejects lesson (JArr blocks) db =
            (ev @ [LessonUpdate ?lid ?data, LogUpdated (lesson_title lesson)], db', None) \<and>
          lessonTable db' ?lid = map_option enriched (lessonTable db ?lid) \<and>
          lessonTable db ?lid \<noteq> None \<and>
          lesson_blocks db' ?lid = fst (insert_blocks ?lid (nextId db) (ud_blocks_create ?data)) \<and>
          map block_fields (lesson_blocks db' ?lid) = map create_fields (ud_blocks_create ?data) \<and>
          map cb_order (lesson_blocks db' ?lid) = [0..<length validBlocks] \<and>
          map vs_query (lesson_videos db' ?lid) =
            map (\<lambda>b. property b ''text'')
                (filter (\<lambda>b. type_of_block b = ''video'') validBlocks) \<and>
          (fresh_ids db \<longrightarrow>
             map (\<lambda>r. map option_data (mcq_of db' r)) (lesson_blocks db' ?lid) =
               map create_options (ud_blocks_create ?data)))"
    by (intro conjI)
qed

lemma process_lesson_accepts_all:
  assumes fv: "filter_valid (lesson_title lesson) blocks = (ev, Inr vbs)" and ne: "vbs \<noteq> []"
    and row: "lessonTable db (lesson_id lesson) = Some row"
  shows "process_lesson accepts_all lesson (JArr blocks) db =
           (ev @ [LessonUpdate (lesson_id lesson) (update_of vbs), LogUpdated (lesson_title lesson)],
            fst (snd (process_lesson accepts_all lesson (JArr blocks) db)), None)"
proof -
  obtain d where "lesson_update accepts_all db (lesson_id lesson) (update_of vbs) = Some d"
    using row
    by (simp add: lesson_update_def accepts_all_def prisma_lesson_update_def case_prod_beta)
  then show ?thesis
    by (simp add: process_lesson_valid [OF fv ne])
qed

lemma sample_filter:
  "filter_valid (lesson_title lesson1) [par_block, JNum 3, mcq_block, video_block] =
     ([WarnInvalidType ''L1'' (JNum 3)], Inr [par_block, mcq_block, video_block])"
  "filter_valid (lesson_title lesson1) [mcq_block] = ([], Inr [mcq_block])"
  by (simp_all add: validate_block_def block_types_def sample_blocks lesson1_def)

lemma sample_db_facts:
  "lessonTable sample_db (lesson_id lesson1) =
     Some \<lparr> lr_title = ''L1'', lr_objectives = [''o''], lr_isEnriched = True \<rparr>"
  "fresh_ids sample_db"
  by (simp_all add: sample_db_def lesson1_def fresh_ids_def)

lemma sample_written_run:
  "process_lesson accepts_all lesson1 (JArr [par_block, JNum 3, mcq_block, video_block]) sample_db =
     ([WarnInvalidType ''L1'' (JNum 3),
       LessonUpdate ''l1'' (update_of [par_block, mcq_block, video_block]), LogUpdated ''L1''],
      sample_written, None)"
  using process_lesson_accepts_all [OF sample_filter(1) _ sample_db_facts(1)]
  by (simp add: sample_written_def) (simp add: lesson1_def)

lemma sample_written_types:
  "map cb_type (lesson_blocks sample_written ''l1'') = [''PARAGRAPH'', ''MCQ'', ''VIDEO'']"
  by (simp add: sample_written_def process_lesson_def validate_block_def block_types_def
        lesson_data_def block_data_def lesson_update_def prisma_lesson_update_def
        accepts_all_def lesson1_def sample_db_def toUpperCase_words or_else_def sample_blocks
        lesson_blocks_def)

theorem lesson_write_replaces_content_witness:
  "process_lesson accepts_all lesson1 (JArr [par_block, JNum 3, mcq_block, video_block]) sample_db =
     ([WarnInvalidType ''L1'' (JNum 3),
       LessonUpdate ''l1'' (update_of [par_block, mcq_block, video_block]), LogUpdated ''L1''],
      sample_written, None) \<and>
   lessonTable sample_written ''l1'' =
     Some \<lparr> lr_title = ''L1'', lr_objectives = [], lr_isEnriched = True \<rparr> \<and>
   map cb_order (lesson_blocks sample_written ''l1'') = [0, 1, 2] \<and>
   map cb_type (lesson_blocks sample_written ''l1'') = [''PARAGRAPH'', ''MCQ'', ''VIDEO''] \<and>
   map vs_query (lesson_videos sample_written ''l1'') = [JStr ''V''] \<and>
   map (\<lambda>r. map option_data (mcq_of sample_written r)) (lesson_blocks sample_written ''l1'') =
     [[],
      [\<lparr> mc_question = JStr ''Q'', mc_options = JArr [JStr ''a'', JStr ''b''],
          mc_answer = JNum 0, mc_explanation = JStr ''E'' \<rparr>],
      []]"
proof -
  let ?blocks = "[par_block, JNum 3, mcq_block, video_block]"
  let ?vbs = "[par_block, mcq_block, video_block]"
  have lid: "lesson_id lesson1 = ''l1''"
    by (simp add: lesson1_def)
  have d: "lesson_update accepts_all sample_db ''l1'' (update_of ?vbs) = Some sample_written"
    using sample_written_run sample_filter(1)
          process_lesson_valid [OF sample_filter(1), of accepts_all sample_db]
    by (auto simp: lid split: option.splits)
  have h: "filter_valid (lesson_title lesson1) ?blocks =
             ([WarnInvalidType ''L1'' (JNum 3)], Inr ?vbs) \<and> ?vbs \<noteq> []"
    using sample_filter(1) by simp
  note t = lesson_write_replaces_content
             [of lesson1 ?blocks "[WarnInvalidType ''L1'' (JNum 3)]" ?vbs accepts_all sample_db,
              THEN mp, OF h, unfolded lid d option.case]
  from t have "lessonTable sample_written ''l1'' = map_option enriched (lessonTable sample_db ''l1'')"
    by blast
  then have s1: "lessonTable sample_written ''l1'' =
                   Some \<lparr> lr_title = ''L1'', lr_objectives = [], lr_isEnriched = True \<rparr>"
    by (simp add: sample_db_def enriched_def)
  from t have "map cb_order (lesson_blocks sample_written ''l1'') = [0..<length ?vbs]"
    by blast
  then have s2: "map cb_order (lesson_blocks sample_written ''l1'') = [0, 1, 2]"
    by (simp add: upt_rec)
  from t have "map vs_query (lesson_videos sample_written ''l1'') =
               map (\<lambda>b. property b ''text'') (filter (\<lambda>b. type_of_block b = ''video'') ?vbs)"
    by blast
  then have s3: "map vs_query (lesson_videos sample_written ''l1'') = [JStr ''V'']"
    by (simp add: type_of_block_def sample_blocks)
  from t sample_db_facts(2)
  have "map (\<lambda>r. map option_data (mcq_of sample_written r)) (lesson_blocks sample_written ''l1'') =
        map create_options (ud_blocks_create (update_of ?vbs))"
    by blast
  then have s4: "map (\<lambda>r. map option_data (mcq_of sample_written r))
                   (lesson_blocks sample_written ''l1'') =
      [[],
       [\<lparr> mc_question = JStr ''Q'', mc_options = JArr [JStr ''a'', JStr ''b''],
           mc_answer = JNum 0, mc_explanation = JStr ''E'' \<rparr>],
       []]"
    by (simp add: update_of_def created_block_def create_options_def type_of_block_def
          sample_blocks)
  from sample_written_run s1 s2 sample_written_types s3 s4 show ?thesis
    by (intro conjI)
qed

text \<open>
  C7, as the script has it.  After a write of the loop body, on a store whose option
  ids are fresh, every content block of the lesson whose type is \<^verbatim>\<open>MCQ\<close> references
  exactly one option row, the one created with it: its question and its explanation are
  truthy, its options are an array and its answer is neither \<^verbatim>\<open>null\<close> nor
  \<^verbatim>\<open>undefined\<close>.  Every other content block of the lesson references none.
\<close>

theorem written_mcq_references_one_option:
  "process_lesson rejects lesson cbs db = (ev, db', None) \<and> LessonUpdate lid data \<in> set ev \<and>
   fresh_ids db \<longrightarrow>
     (\<forall>r\<in>set (lesson_blocks db' lid).
        if cb_type r = ''MCQ''
        then \<exists>m. mcq_of db' r = [m] \<and> truthy (mo_question m) \<and> isArray (mo_options m) \<and>
                 \<not> nullish (mo_answer m) \<and> truthy (mo_explanation m)
        else mcq_of db' r = [])"
proof (intro impI ballI)
  fix r
  assume h: "process_lesson rejects lesson cbs db = (ev, db', None) \<and>
             LessonUpdate lid data \<in> set ev \<and> fresh_ids db"
    and r: "r \<in> set (lesson_blocks db' lid)"
  from h have p: "process_lesson rejects lesson cbs db = (ev, db', None)"
    and w: "LessonUpdate lid data \<in> set ev" and fresh: "fresh_ids db"
    by simp_all
  from process_lesson_written [OF p w] obtain blocks ev0 vbs where
    fv: "filter_valid (lesson_title lesson) blocks = (ev0, Inr vbs)"
    and data: "data = update_of vbs"
    and u: "prisma_lesson_update db lid data = Some db'"
    by blast
  have del: "ud_blocks_deleteMany (update_of vbs)" "ud_videos_deleteMany (update_of vbs)"
    by (simp_all add: update_of_def)
  have len: "length (lesson_blocks db' lid) = length vbs"
    using prisma_lesson_update_parts(2) [OF u [unfolded data] del]
    by (simp add: insert_blocks_length update_of_def)
  from r obtain k where k: "k < length (lesson_blocks db' lid)" and rk: "lesson_blocks db' lid ! k = r"
    by (auto simp: in_set_conv_nth)
  from k len have kv: "k < length vbs"
    by simp
  have kept: "block_kept (vbs ! k)"
    using filter_valid_result(3) [OF fv] kv by simp
  note row = written_row [OF u [unfolded data] fresh kv]
  show "if cb_type r = ''MCQ''
        then \<exists>m. mcq_of db' r = [m] \<and> truthy (mo_question m) \<and> isArray (mo_options m) \<and>
                 \<not> nullish (mo_answer m) \<and> truthy (mo_explanation m)
        else mcq_of db' r = []"
    using kept_row_options [OF kept row(2) row(3)] by (simp only: rk)
qed

theorem written_mcq_references_one_option_witness:
  "fresh_ids sample_db \<and>
   map cb_type (lesson_blocks sample_written ''l1'') = [''PARAGRAPH'', ''MCQ'', ''VIDEO''] \<and>
   list_all (\<lambda>r. if cb_type r = ''MCQ''
                  then \<exists>m. mcq_of sample_written r = [m] \<and> truthy (mo_question m) \<and>
                           isArray (mo_options m) \<and> \<not> nullish (mo_answer m) \<and>
                           truthy (mo_explanation m)
                  else mcq_of sample_written r = [])
            (lesson_blocks sample_written ''l1'')"
proof -
  have ty: "map cb_type (lesson_blocks sample_written ''l1'') = [''PARAGRAPH'', ''MCQ'', ''VIDEO'']"
    by (rule sample_written_types)
  show ?thesis
    using written_mcq_references_one_option
            [of accepts_all lesson1 "JArr [par_block, JNum 3, mcq_block, video_block]" sample_db
                "[WarnInvalidType ''L1'' (JNum 3),
                  LessonUpdate ''l1'' (update_of [par_block, mcq_block, video_block]),
                  LogUpdated ''L1'']"
                sample_written "''l1''" "update_of [par_block, mcq_block, video_block]"]
          sample_written_run sample_db_facts(2) ty
    by (simp add: list_all_iff)
qed

text \<open>
  C7 as the specification words it asks for options that are not empty and an answer
  that is an index into them.  The block \<open>mcq_no_options\<close> passes the validation; after
  the write the lesson's \<^verbatim>\<open>MCQ\<close> block references an option row with no options and
  the answer 5.
\<close>

theorem empty_options_are_written:
  "snd (snd (process_lesson accepts_all lesson1 (JArr [mcq_no_options]) sample_db)) = None \<and>
   map (\<lambda>r. (cb_type r,
              map (\<lambda>m. (mo_options m, mo_answer m))
                  (mcq_of (fst (snd (process_lesson accepts_all lesson1 (JArr [mcq_no_options])
                                       sample_db))) r)))
       (lesson_blocks (fst (snd (process_lesson accepts_all lesson1 (JArr [mcq_no_options])
                                   sample_db))) ''l1'') =
     [(''MCQ'', [(JArr [], JNum 5)])]"
  by (simp add: process_lesson_def validate_block_def block_types_def lesson_data_def
        block_data_def lesson_update_def prisma_lesson_update_def accepts_all_def lesson1_def
        sample_db_def toUpperCase_words or_else_def mcq_no_options_def mcq_of_def
        lesson_blocks_def)

text \<open>
  C6, as the script and the schema have it.  When the loop body has written a lesson and
  is run again on the same content, the second write removes the content blocks and video
  searches of the first and inserts its own, so that the content of the lesson, read
  through its blocks, is the same after two runs as after one.  The option table only
  grows: the rows that the removed blocks referenced stay in it.
\<close>

theorem rerun_gives_same_content:
  "process_lesson rejects lesson cbs db = (ev1, db1, None) \<and> LessonUpdate lid data \<in> set ev1 \<and>
   fresh_ids db \<and> process_lesson rejects' lesson cbs db1 = (ev2, db2, None) \<longrightarrow>
     lid = lesson_id lesson \<and>
     lesson_content db2 lid = lesson_content db1 lid \<and>
     lesson_blocks db1 lid = fst (insert_blocks lid (nextId db) (ud_blocks_create data)) \<and>
     lesson_blocks db2 lid = fst (insert_blocks lid (nextId db1) (ud_blocks_create data)) \<and>
     mcqOptionTable db1 =
       mcqOptionTable db @ fst (snd (insert_blocks lid (nextId db) (ud_blocks_create data))) \<and>
     mcqOptionTable db2 =
       mcqOptionTable db1 @ fst (snd (insert_blocks lid (nextId db1) (ud_blocks_create data)))"
proof (intro impI)
  assume h: "process_lesson rejects lesson cbs db = (ev1, db1, None) \<and>
             LessonUpdate lid data \<in> set ev1 \<and> fresh_ids db \<and>
             process_lesson rejects' lesson cbs db1 = (ev2, db2, None)"
  then have p1: "process_lesson rejects lesson cbs db = (ev1, db1, None)"
    and w: "LessonUpdate lid data \<in> set ev1" and fresh: "fresh_ids db"
    and p2: "process_lesson rejects' lesson cbs db1 = (ev2, db2, None)"
    by simp_all
  from process_lesson_written [OF p1 w] obtain blocks ev0 vbs where
    cbs: "cbs = JArr blocks"
    and fv: "filter_valid (lesson_title lesson) blocks = (ev0, Inr vbs)"
    and ne: "vbs \<noteq> []"
    and data: "data = update_of vbs"
    and lid: "lid = lesson_id lesson"
    and u1: "prisma_lesson_update db lid data = Some db1"
    by blast
  have u2: "prisma_lesson_update db1 lid data = Some db2"
    using process_lesson_again [OF fv ne p2 [unfolded cbs]] by (simp add: data lid)
  have del: "ud_blocks_deleteMany data" "ud_videos_deleteMany data"
    by (simp_all add: data update_of_def)
  have fresh1: "fresh_ids db1"
    by (rule fresh_ids_kept [OF u1 del fresh])
  have "lessonTable db1 lid = map_option enriched (lessonTable db lid)"
    using lesson_content_after [OF u1 [unfolded data] fresh]
    by (simp add: lesson_content_def)
  then have "map_option enriched (lessonTable db1 lid) = map_option enriched (lessonTable db lid)"
    by (simp add: option.map_comp comp_def enriched_def [abs_def])
  then have "lesson_content db2 lid = lesson_content db1 lid"
    using lesson_content_after [OF u1 [unfolded data] fresh]
          lesson_content_after [OF u2 [unfolded data] fresh1]
    by simp
  with lid prisma_lesson_update_parts(2,4) [OF u1 del] prisma_lesson_update_parts(2,4) [OF u2 del]
  show "lid = lesson_id lesson \<and>
     lesson_content db2 lid = lesson_content db1 lid \<and>
     lesson_blocks db1 lid = fst (insert_blocks lid (nextId db) (ud_blocks_create data)) \<and>
     lesson_blocks db2 lid = fst (insert_blocks lid (nextId db1) (ud_blocks_create data)) \<and>
     mcqOptionTable db1 =
       mcqOptionTable db @ fst (snd (insert_blocks lid (nextId db) (ud_blocks_create data))) \<and>
     mcqOptionTable db2 =
       mcqOptionTable db1 @ fst (snd (insert_blocks lid (nextId db1) (ud_blocks_create data)))"
    by simp
qed

theorem rerun_gives_same_content_witness:
  "fresh_ids sample_db \<and>
   lesson_content after_two_runs ''l1'' = lesson_content after_one_run ''l1'' \<and>
   map cb_order (lesson_blocks after_one_run ''l1'') = [0] \<and>
   map cb_order (lesson_blocks after_two_runs ''l1'') = [0]"
proof -
  have r1: "process_lesson accepts_all lesson1 (JArr [mcq_block]) sample_db =
              ([LessonUpdate ''l1'' (update_of [mcq_block]), LogUpdated ''L1''],
               after_one_run, None)"
    using process_lesson_accepts_all [OF sample_filter(2) _ sample_db_facts(1)]
    by (simp add: after_one_run_def) (simp add: lesson1_def)
  have row: "lessonTable after_one_run (lesson_id lesson1) =
               Some \<lparr> lr_title = ''L1'', lr_objectives = [], lr_isEnriched = True \<rparr>"
    by (simp add: after_one_run_def process_lesson_def validate_block_def block_types_def
          lesson_data_def block_data_def lesson_update_def prisma_lesson_update_def
          accepts_all_def lesson1_def sample_db_def toUpperCase_words or_else_def sample_blocks)
  have r2: "process_lesson accepts_all lesson1 (JArr [mcq_block]) after_one_run =
              ([LessonUpdate ''l1'' (update_of [mcq_block]), LogUpdated ''L1''],
               after_two_runs, None)"
    using process_lesson_accepts_all [OF sample_filter(2) _ row]
    by (simp add: after_two_runs_def) (simp add: lesson1_def)
  have o: "map cb_order
             (fst (insert_blocks ''l1'' n (ud_blocks_create (update_of [mcq_block])))) = [0]" for n
    by (simp add: update_of_def created_block_def type_of_block_def sample_blocks)
  have h: "process_lesson accepts_all lesson1 (JArr [mcq_block]) sample_db =
             ([LessonUpdate ''l1'' (update_of [mcq_block]), LogUpdated ''L1''],
              after_one_run, None) \<and>
           LessonUpdate ''l1'' (update_of [mcq_block]) \<in>
             set [LessonUpdate ''l1'' (update_of [mcq_block]), LogUpdated ''L1''] \<and>
           fresh_ids sample_db \<and>
           process_lesson accepts_all lesson1 (JArr [mcq_block]) after_one_run =
             ([LessonUpdate ''l1'' (update_of [mcq_block]), LogUpdated ''L1''],
              after_two_runs, None)"
    using r1 r2 sample_db_facts(2) by simp
  note t = rerun_gives_same_content
             [of accepts_all lesson1 "JArr [mcq_block]" sample_db
                 "[LessonUpdate ''l1'' (update_of [mcq_block]), LogUpdated ''L1'']" after_one_run
                 "''l1''" "update_of [mcq_block]" accepts_all
                 "[LessonUpdate ''l1'' (update_of [mcq_block]), LogUpdated ''L1'']" after_two_runs,
              THEN mp, OF h]
  from t have c: "lesson_content after_two_runs ''l1'' = lesson_content after_one_run ''l1''"
    by blast
  from t have "lesson_blocks after_one_run ''l1'' =
               fst (insert_blocks ''l1'' (nextId sample_db) (ud_blocks_create (update_of [mcq_block])))"
    by blast
  then have o1: "map cb_order (lesson_blocks after_one_run ''l1'') = [0]"
    by (simp only: o)
  from t have "lesson_blocks after_two_runs ''l1'' =
               fst (insert_blocks ''l1'' (nextId after_one_run)
                      (ud_blocks_create (update_of [mcq_block])))"
    by blast
  then have o2: "map cb_order (lesson_blocks after_two_runs ''l1'') = [0]"
    by (simp only: o)
  from sample_db_facts(2) c o1 o2 show ?thesis
    by (intro conjI)
qed

text \<open>
  C6 as the specification words it has the options owned by the old blocks deleted with
  them.  In the sample store the block of lesson \<open>l1\<close> references option 0.  After one
  run the lesson's block references the new option 3 and option 0 is still in the table;
  after the second run the block references option 5 and options 0 and 3 are both still
  there.
\<close>

theorem old_options_stay:
  "map cb_mcqId (lesson_blocks sample_db ''l1'') = [Some 0] \<and>
   map mo_id (mcqOptionTable sample_db) = [0] \<and>
   map cb_mcqId (lesson_blocks after_one_run ''l1'') = [Some 3] \<and>
   map mo_id (mcqOptionTable after_one_run) = [0, 3] \<and>
   map cb_mcqId (lesson_blocks after_two_runs ''l1'') = [Some 5] \<and>
   map mo_id (mcqOptionTable after_two_runs) = [0, 3, 5]"
  by (simp add: after_two_runs_def after_one_run_def process_lesson_def validate_block_def
        block_types_def lesson_data_def block_data_def lesson_update_def
        prisma_lesson_update_def accepts_all_def lesson1_def sample_db_def toUpperCase_words
        or_else_def mcq_block_def lesson_blocks_def)

subsection \<open>The type of a persisted block\<close>

lemma created_types:
  "map (bc_type \<circ> (\<lambda>(k, b). created_block k b)) (enumerate i vs) =
   map (\<lambda>b. toUpperCase (type_of_block b)) vs"
  by (induction vs arbitrary: i) (simp_all add: created_block_def)

lemma insert_blocks_types: "map cb_type (fst (insert_blocks lid n cs)) = map bc_type cs"
  by (induction cs arbitrary: n) (simp_all add: case_prod_beta split: option.splits)

lemma case_variant_not_kept:
  assumes "property b ''type'' = JStr s" "w \<in> {''paragraph'', ''video'', ''mcq''}"
    "case_variant s w"
  shows "\<not> block_kept b" and "block_warning t b = WarnInvalidType t b"
proof -
  from assms have "s \<notin> {''paragraph'', ''video'', ''mcq''}"
    by (auto simp: case_variant_def toUpperCase_words)
  with assms(1) show "\<not> block_kept b" and "block_warning t b = WarnInvalidType t b"
    by (auto simp: block_kept_def block_warning_def block_types_def)
qed

text \<open>
  C10.  Types are matched against the lower-case words with strict equality: a block
  whose type is one of them in another letter case is dropped as an invalid type, so
  that it is reported by the filter and is not among the valid blocks.  Every block that
  the filter accepts gets, in the data of the update, the upper-case form of its type,
  one of \<^verbatim>\<open>PARAGRAPH\<close>, \<^verbatim>\<open>VIDEO\<close> and \<^verbatim>\<open>MCQ\<close>, and after the write of the loop body the
  content blocks of the lesson hold, in order, the upper-case types of the valid blocks.
\<close>

theorem type_matching_is_case_sensitive:
  "(property b ''type'' = JStr s \<and> w \<in> {''paragraph'', ''video'', ''mcq''} \<and> case_variant s w \<longrightarrow>
      validate_block t b = ([WarnInvalidType t b], Inr False)) \<and>
   (validate_block t b = (ev, Inr True) \<longrightarrow>
      (\<exists>c. block_data i b = Inr c \<and> bc_type c = toUpperCase (type_of_block b) \<and>
           type_of_block b \<in> {''paragraph'', ''video'', ''mcq''} \<and>
           bc_type c \<in> {''PARAGRAPH'', ''VIDEO'', ''MCQ''})) \<and>
   map cb_type (fst (insert_blocks lid n cs)) = map bc_type cs \<and>
   (filter_valid t blocks = (evs, Inr validBlocks) \<and> b \<in> set blocks \<and>
    property b ''type'' = JStr s \<and> w \<in> {''paragraph'', ''video'', ''mcq''} \<and> case_variant s w \<longrightarrow>
      b \<notin> set validBlocks \<and> WarnInvalidType t b \<in> set evs) \<and>
   (filter_valid t blocks = (evs, Inr validBlocks) \<longrightarrow>
      (\<exists>data. lesson_data validBlocks = Inr data \<and>
         map bc_type (ud_blocks_create data) =
           map (\<lambda>b. toUpperCase (type_of_block b)) validBlocks) \<and>
      (\<forall>v\<in>set validBlocks.
         type_of_block v \<in> {''paragraph'', ''video'', ''mcq''} \<and>
         toUpperCase (type_of_block v) \<in> {''PARAGRAPH'', ''VIDEO'', ''MCQ''})) \<and>
   (filter_valid (lesson_title lesson) blocks = (evs, Inr validBlocks) \<and> validBlocks \<noteq> [] \<and>
    process_lesson rejects lesson (JArr blocks) db = (ev', db', None) \<longrightarrow>
      map cb_type (lesson_blocks db' (lesson_id lesson)) =
        map (\<lambda>b. toUpperCase (type_of_block b)) validBlocks)"
proof (intro conjI impI)
  assume a: "property b ''type'' = JStr s \<and> w \<in> {''paragraph'', ''video'', ''mcq''} \<and> case_variant s w"
  then have "s \<notin> {''paragraph'', ''video'', ''mcq''}"
    by (auto simp: case_variant_def toUpperCase_words)
  moreover from a have "\<not> nullish b"
    by (cases b) auto
  ultimately show "validate_block t b = ([WarnInvalidType t b], Inr False)"
    using a by (auto simp: validate_block_def block_types_def)
next
  assume "validate_block t b = (ev, Inr True)"
  then have k: "block_kept b"
    by (simp add: validate_block_True)
  from block_kept_type [OF k]
  have ty: "type_of_block b \<in> {''paragraph'', ''video'', ''mcq''}"
    by simp
  then have "toUpperCase (type_of_block b) \<in> {''PARAGRAPH'', ''VIDEO'', ''MCQ''}"
    by (auto simp: toUpperCase_words)
  with ty show "\<exists>c. block_data i b = Inr c \<and> bc_type c = toUpperCase (type_of_block b) \<and>
           type_of_block b \<in> {''paragraph'', ''video'', ''mcq''} \<and>
           bc_type c \<in> {''PARAGRAPH'', ''VIDEO'', ''MCQ''}"
    by (simp add: block_data_kept [OF k] created_block_def)
next
  show "map cb_type (fst (insert_blocks lid n cs)) = map bc_type cs"
    by (rule insert_blocks_types)
next
  assume h: "filter_valid t blocks = (evs, Inr validBlocks) \<and> b \<in> set blocks \<and>
    property b ''type'' = JStr s \<and> w \<in> {''paragraph'', ''video'', ''mcq''} \<and> case_variant s w"
  then have fv: "filter_valid t blocks = (evs, Inr validBlocks)" and b: "b \<in> set blocks"
    by simp_all
  from h have nk: "\<not> block_kept b" and bw: "block_warning t b = WarnInvalidType t b"
    using case_variant_not_kept(1) [of b s w] case_variant_not_kept(2) [of b s w t] by simp_all
  from filter_valid_result(1) [OF fv] nk show "b \<notin> set validBlocks"
    by simp
  from filter_valid_result(2) [OF fv] b nk bw show "WarnInvalidType t b \<in> set evs"
    by force
next
  assume fv: "filter_valid t blocks = (evs, Inr validBlocks)"
  have kept: "\<forall>b\<in>set validBlocks. block_kept b"
    by (rule filter_valid_result(3) [OF fv])
  show "\<exists>data. lesson_data validBlocks = Inr data \<and>
         map bc_type (ud_blocks_create data) =
           map (\<lambda>b. toUpperCase (type_of_block b)) validBlocks"
    by (simp add: lesson_data_kept [OF kept] created_types)
  show "\<forall>v\<in>set validBlocks.
         type_of_block v \<in> {''paragraph'', ''video'', ''mcq''} \<and>
         toUpperCase (type_of_block v) \<in> {''PARAGRAPH'', ''VIDEO'', ''MCQ''}"
  proof
    fix v
    assume "v \<in> set validBlocks"
    with kept have "block_kept v" by simp
    from block_kept_type [OF this]
    show "type_of_block v \<in> {''paragraph'', ''video'', ''mcq''} \<and>
         toUpperCase (type_of_block v) \<in> {''PARAGRAPH'', ''VIDEO'', ''MCQ''}"
      by (auto simp: toUpperCase_words)
  qed
next
  assume h: "filter_valid (lesson_title lesson) blocks = (evs, Inr validBlocks) \<and>
    validBlocks \<noteq> [] \<and> process_lesson rejects lesson (JArr blocks) db = (ev', db', None)"
  then have fv: "filter_valid (lesson_title lesson) blocks = (evs, Inr validBlocks)"
    and ne: "validBlocks \<noteq> []"
    and p: "process_lesson rejects lesson (JArr blocks) db = (ev', db', None)"
    by simp_all
  have u: "prisma_lesson_update db (lesson_id lesson) (update_of validBlocks) = Some db'"
    by (rule process_lesson_again [OF fv ne p])
  have del: "ud_blocks_deleteMany (update_of validBlocks)"
    "ud_videos_deleteMany (update_of validBlocks)"
    by (simp_all add: update_of_def)
  have "map cb_type (lesson_blocks db' (lesson_id lesson)) =
        map bc_type (ud_blocks_create (update_of validBlocks))"
    by (simp only: prisma_lesson_update_parts(2) [OF u del] insert_blocks_types)
  also have "\<dots> = map (\<lambda>b. toUpperCase (type_of_block b)) validBlocks"
    by (simp add: update_of_def created_types)
  finally show "map cb_type (lesson_blocks db' (lesson_id lesson)) =
        map (\<lambda>b. toUpperCase (type_of_block b)) validBlocks" .
qed

theorem type_matching_is_case_sensitive_witness:
  "validate_block ''L1'' (JObj [(''type'', JStr ''Mcq'')]) =
     ([WarnInvalidType ''L1'' (JObj [(''type'', JStr ''Mcq'')])], Inr False) \<and>
   filter_valid ''L1'' [JObj [(''type'', JStr ''Mcq'')], par_block] =
     ([WarnInvalidType ''L1'' (JObj [(''type'', JStr ''Mcq'')])], Inr [par_block]) \<and>
   WarnInvalidType ''L1'' (JObj [(''type'', JStr ''Mcq'')]) \<in>
     set [WarnInvalidType ''L1'' (JObj [(''type'', JStr ''Mcq'')])] \<and>
   (\<exists>c. block_data 0 par_block = Inr c \<and> bc_type c = ''PARAGRAPH'') \<and>
   (\<exists>data. lesson_data [par_block, mcq_block, video_block] = Inr data \<and>
      map bc_type (ud_blocks_create data) = [''PARAGRAPH'', ''MCQ'', ''VIDEO'']) \<and>
   map cb_type (lesson_blocks sample_written ''l1'') = [''PARAGRAPH'', ''MCQ'', ''VIDEO''] \<and>
   map cb_type (fst (insert_blocks ''l1'' 0 [created_block 0 mcq_block])) = [''MCQ'']"
proof -
  let ?m = "JObj [(''type'', JStr ''Mcq'')]"
  let ?blocks = "[par_block, JNum 3, mcq_block, video_block]"
  let ?vbs = "[par_block, mcq_block, video_block]"
  have cv: "case_variant ''Mcq'' ''mcq''"
    by (simp add: case_variant_def toUpperCase_def upper_char_def)
  have fm: "filter_valid ''L1'' [?m, par_block] = ([WarnInvalidType ''L1'' ?m], Inr [par_block])"
    by (simp add: validate_block_def block_types_def par_block_def)
  have ha: "property ?m ''type'' = JStr ''Mcq'' \<and> ''mcq'' \<in> {''paragraph'', ''video'', ''mcq''} \<and>
            case_variant ''Mcq'' ''mcq''"
    using cv by simp
  have hb: "filter_valid ''L1'' [?m, par_block] = ([WarnInvalidType ''L1'' ?m], Inr [par_block]) \<and>
            ?m \<in> set [?m, par_block] \<and> property ?m ''type'' = JStr ''Mcq'' \<and>
            ''mcq'' \<in> {''paragraph'', ''video'', ''mcq''} \<and> case_variant ''Mcq'' ''mcq''"
    using cv fm by simp
  note a = type_matching_is_case_sensitive
             [where b = ?m and s = "''Mcq''" and w = "''mcq''" and t = "''L1''"
                and blocks = "[?m, par_block]" and evs = "[WarnInvalidType ''L1'' ?m]"
                and validBlocks = "[par_block]"]
  from a ha have w1: "validate_block ''L1'' ?m = ([WarnInvalidType ''L1'' ?m], Inr False)"
    by blast
  from a hb have w3: "WarnInvalidType ''L1'' ?m \<in> set [WarnInvalidType ''L1'' ?m]"
    by blast
  have lid: "lesson_id lesson1 = ''l1''" and lt: "lesson_title lesson1 = ''L1''"
    by (simp_all add: lesson1_def)
  have v: "validate_block ''L1'' par_block = ([], Inr True)"
    by (simp add: validate_block_def par_block_def block_types_def)
  have fv: "filter_valid ''L1'' ?blocks = ([WarnInvalidType ''L1'' (JNum 3)], Inr ?vbs)"
    using sample_filter(1) by (simp only: lt)
  have hc: "filter_valid (lesson_title lesson1) ?blocks =
              ([WarnInvalidType ''L1'' (JNum 3)], Inr ?vbs) \<and> ?vbs \<noteq> [] \<and>
            process_lesson accepts_all lesson1 (JArr ?blocks) sample_db =
              ([WarnInvalidType ''L1'' (JNum 3), LessonUpdate ''l1'' (update_of ?vbs),
                LogUpdated ''L1''], sample_written, None)"
    using sample_filter(1) sample_written_run by simp
  note b = type_matching_is_case_sensitive
             [where b = par_block and t = "''L1''" and ev = "[]" and i = 0
                and lid = "''l1''" and n = 0 and cs = "[created_block 0 mcq_block]"
                and blocks = ?blocks and evs = "[WarnInvalidType ''L1'' (JNum 3)]"
                and validBlocks = ?vbs and lesson = lesson1 and rejects = accepts_all
                and db = sample_db
                and ev' = "[WarnInvalidType ''L1'' (JNum 3), LessonUpdate ''l1'' (update_of ?vbs),
                            LogUpdated ''L1'']"
                and db' = sample_written]
  have up: "map (\<lambda>b. toUpperCase (type_of_block b)) ?vbs = [''PARAGRAPH'', ''MCQ'', ''VIDEO'']"
    "toUpperCase (type_of_block par_block) = ''PARAGRAPH''"
    by (simp_all add: type_of_block_def sample_blocks toUpperCase_words)
  from b v have "\<exists>c. block_data 0 par_block = Inr c \<and>
                     bc_type c = toUpperCase (type_of_block par_block)"
    by blast
  then have w4: "\<exists>c. block_data 0 par_block = Inr c \<and> bc_type c = ''PARAGRAPH''"
    by (simp only: up)
  from b fv have "\<exists>data. lesson_data ?vbs = Inr data \<and>
                    map bc_type (ud_blocks_create data) =
                      map (\<lambda>b. toUpperCase (type_of_block b)) ?vbs"
    by blast
  then have w5: "\<exists>data. lesson_data ?vbs = Inr data \<and>
                    map bc_type (ud_blocks_create data) = [''PARAGRAPH'', ''MCQ'', ''VIDEO'']"
    by (simp only: up)
  from b hc have "map cb_type (lesson_blocks sample_written (lesson_id lesson1)) =
                  map (\<lambda>b. toUpperCase (type_of_block b)) ?vbs"
    by blast
  then have w6: "map cb_type (lesson_blocks sample_written ''l1'') =
                 [''PARAGRAPH'', ''MCQ'', ''VIDEO'']"
    by (simp only: up lid)
  from b have "map cb_type (fst (insert_blocks ''l1'' 0 [created_block 0 mcq_block])) =
               map bc_type [created_block 0 mcq_block]"
    by blast
  then have w7: "map cb_type (fst (insert_blocks ''l1'' 0 [created_block 0 mcq_block])) = [''MCQ'']"
    by (simp add: created_block_def type_of_block_def mcq_block_def toUpperCase_words)
  from w1 fm w3 w4 w5 w6 w7 show ?thesis
    by (intro conjI)
qed

end
